theory Spec2Isabelle
  imports Complex_Main
begin

section \<open>The synthetic data generator of \<^verbatim>\<open>project_yeta_ah.py\<close>\<close>

text \<open>
  This theory embeds \<^verbatim>\<open>generate_realistic_cheating_data\<close> (lines 24 to 184 of
  \<^verbatim>\<open>src/project_yeta_ah.py\<close>). Python floats are modelled by real numbers and
  the arithmetic on the generated scores is exact; the one product that decides a
  count, the product of line 43, is rounded to a double. A cell of a pandas column is a \<open>real option\<close>, where
  \<open>None\<close> stands for a float that is not finite (NaN). The pseudo random number
  generator of numpy and the isolation forest of scikit-learn are libraries, not code of
  the repository: they are parameters of the model.
\<close>

subsection \<open>Cells, columns, frames\<close>

type_synonym cell = "real option"
type_synonym column = "cell list"
type_synonym frame = "(string \<times> column) list"

datatype py_error = NegativeDimensions | IndexError | KeyError | LengthMismatch | DetectorError

text \<open>Float arithmetic on cells: NaN is absorbing; a division by zero is not finite.\<close>

definition cadd :: "cell \<Rightarrow> cell \<Rightarrow> cell" where
  "cadd a b = (case a of None \<Rightarrow> None | Some x \<Rightarrow> (case b of None \<Rightarrow> None | Some y \<Rightarrow> Some (x + y)))"

definition csub :: "cell \<Rightarrow> cell \<Rightarrow> cell" where
  "csub a b = (case a of None \<Rightarrow> None | Some x \<Rightarrow> (case b of None \<Rightarrow> None | Some y \<Rightarrow> Some (x - y)))"

definition cdiv :: "cell \<Rightarrow> cell \<Rightarrow> cell" where
  "cdiv a b = (case a of None \<Rightarrow> None | Some x \<Rightarrow>
     (case b of None \<Rightarrow> None | Some y \<Rightarrow> if y = 0 then None else Some (x / y)))"

text \<open>\<^verbatim>\<open>int(x)\<close> of a float: truncation towards zero.\<close>

definition py_int :: "real \<Rightarrow> int" where
  "py_int x = (if 0 \<le> x then \<lfloor>x\<rfloor> else \<lceil>x\<rceil>)"

text \<open>
  The product of line 43 is a product of doubles: \<open>n_samples\<close> is converted to a double,
  and the exact product with \<open>cheater_ratio\<close> is rounded to the nearest double, ties to the
  even significand of 53 bits. (Overflow and subnormal numbers are left out;
  \<open>cheater_ratio\<close> is the value of the double the caller passes.)
\<close>

definition round_half_even :: "real \<Rightarrow> int" where
  "round_half_even x =
     (if frac x < 1 / 2 then \<lfloor>x\<rfloor>
      else if 1 / 2 < frac x then \<lceil>x\<rceil>
      else if even \<lfloor>x\<rfloor> then \<lfloor>x\<rfloor> else \<lceil>x\<rceil>)"

definition to_double :: "real \<Rightarrow> real" where
  "to_double x =
     (if x = 0 then 0
      else (let e = \<lfloor>log 2 \<bar>x\<bar>\<rfloor> - 52
            in real_of_int (round_half_even (x / 2 powr real_of_int e)) * 2 powr real_of_int e))"

text \<open>Line 43: \<^verbatim>\<open>int(n_samples * cheater_ratio)\<close>.\<close>

definition n_cheaters_of :: "int \<Rightarrow> real \<Rightarrow> int" where
  "n_cheaters_of n_samples cheater_ratio =
     py_int (to_double (to_double (real_of_int n_samples) * cheater_ratio))"

definition names :: "frame \<Rightarrow> string list" where
  "names df = map fst df"

definition nrows :: "frame \<Rightarrow> nat" where
  "nrows df = (case df of [] \<Rightarrow> 0 | kc # _ \<Rightarrow> length (snd kc))"

text \<open>\<^verbatim>\<open>df[nm]\<close>, read. Every column the generator reads this way was created before.\<close>

definition col :: "frame \<Rightarrow> string \<Rightarrow> column" where
  "col df nm = (case map_of df nm of None \<Rightarrow> [] | Some c \<Rightarrow> c)"

text \<open>\<^verbatim>\<open>df.loc[i, nm]\<close>, read, with \<open>i\<close> a row label of the frame.\<close>

definition cell_at :: "frame \<Rightarrow> nat \<Rightarrow> string \<Rightarrow> cell" where
  "cell_at df i nm = (if i < length (col df nm) then col df nm ! i else None)"

text \<open>\<^verbatim>\<open>df[nm] = c\<close>: an existing column is replaced where it stands, a new one is
  appended.\<close>

fun set_col :: "frame \<Rightarrow> string \<Rightarrow> column \<Rightarrow> frame" where
  "set_col [] nm c = [(nm, c)]"
| "set_col (kc # df) nm c = (if fst kc = nm then (nm, c) # df else kc # set_col df nm c)"

text \<open>The column \<open>nm\<close>, or a column of NaN when the frame has none of that name: what
  pandas fills in when an assignment or a concatenation creates the column.\<close>

definition col_or_nan :: "frame \<Rightarrow> string \<Rightarrow> column" where
  "col_or_nan df nm = (case map_of df nm of None \<Rightarrow> replicate (nrows df) None | Some c \<Rightarrow> c)"

text \<open>\<^verbatim>\<open>df.loc[i, nm] = v\<close> for a row label \<open>i\<close> of the frame: sets one cell, creating
  the column (NaN elsewhere) when it does not exist yet.\<close>

definition set_cell :: "frame \<Rightarrow> nat \<Rightarrow> string \<Rightarrow> cell \<Rightarrow> frame" where
  "set_cell df i nm v = set_col df nm ((col_or_nan df nm)[i := v])"

text \<open>\<^verbatim>\<open>pd.concat([a, b]).reset_index(drop=True)\<close>: the rows of \<open>b\<close> under the rows of
  \<open>a\<close>, over the union of the columns in order of first appearance.\<close>

definition pd_concat :: "frame \<Rightarrow> frame \<Rightarrow> frame" where
  "pd_concat a b =
     map (\<lambda>nm. (nm, col_or_nan a nm @ col_or_nan b nm))
         (names a @ filter (\<lambda>nm. nm \<notin> set (names a)) (names b))"

text \<open>\<^verbatim>\<open>df.drop(nms, axis=1)\<close>.\<close>

definition drop_cols :: "frame \<Rightarrow> string list \<Rightarrow> frame" where
  "drop_cols df nms = filter (\<lambda>kc. fst kc \<notin> set nms) df"

text \<open>A column plus a numpy array, element by element.\<close>

definition col_plus :: "column \<Rightarrow> real list \<Rightarrow> column" where
  "col_plus c xs = map (\<lambda>(a, x). cadd a (Some x)) (zip c xs)"

subsection \<open>Statistics\<close>

definition mean :: "real list \<Rightarrow> real" where
  "mean xs = sum_list xs / real (length xs)"

definition sq_dev :: "real list \<Rightarrow> real" where
  "sq_dev xs = sum_list (map (\<lambda>x. (x - mean xs)\<^sup>2) xs)"

text \<open>\<^verbatim>\<open>np.std\<close> of a row (\<^verbatim>\<open>ddof=0\<close>): NaN propagates.\<close>

definition np_std :: "cell list \<Rightarrow> cell" where
  "np_std cs = (case those cs of None \<Rightarrow> None
     | Some xs \<Rightarrow> if xs = [] then None else Some (sqrt (sq_dev xs / real (length xs))))"

text \<open>The values of a column that are not NaN (\<^verbatim>\<open>skipna=True\<close>, the default of pandas).\<close>

definition finite_vals :: "column \<Rightarrow> real list" where
  "finite_vals c = map the (filter (\<lambda>v. v \<noteq> None) c)"

text \<open>\<^verbatim>\<open>Series.mean()\<close>: NaN for a series with no value.\<close>

definition pd_mean :: "column \<Rightarrow> cell" where
  "pd_mean c = (let xs = finite_vals c in if xs = [] then None else Some (mean xs))"

text \<open>\<^verbatim>\<open>Series.std()\<close>: pandas' default is \<^verbatim>\<open>ddof=1\<close>, the sample standard
  deviation; NaN for fewer than two values.\<close>

definition pd_std :: "column \<Rightarrow> cell" where
  "pd_std c = (let xs = finite_vals c in
     if length xs < 2 then None else Some (sqrt (sq_dev xs / real (length xs - 1))))"

text \<open>\<^verbatim>\<open>np.percentile(a, qs)\<close> with the default linear interpolation: IndexError for
  an empty array, NaN when the array holds a NaN.\<close>

definition np_percentile :: "column \<Rightarrow> real list \<Rightarrow> py_error + cell list" where
  "np_percentile c qs =
     (if c = [] then Inl IndexError
      else Inr (map (\<lambda>q. case those c of None \<Rightarrow> None
                  | Some xs \<Rightarrow>
                      (let s = sort xs;
                           pos = q / 100 * real (length xs - 1);
                           lo = nat \<lfloor>pos\<rfloor>;
                           hi = min (lo + 1) (length xs - 1)
                       in Some (s ! lo + (pos - real lo) * (s ! hi - s ! lo)))) qs))"

text \<open>\<^verbatim>\<open>np.digitize(x, bins=[b0, b1])\<close>: for increasing bins the number of bins that
  are at most \<open>x\<close>, for decreasing bins the number of bins above \<open>x\<close>. The result is 0, 1
  or 2. (Comparisons with NaN are false here; the generator digitizes finite values with
  finite bins.)\<close>

definition cle :: "cell \<Rightarrow> cell \<Rightarrow> bool" where
  "cle a b = (case a of None \<Rightarrow> False | Some x \<Rightarrow> (case b of None \<Rightarrow> False | Some y \<Rightarrow> x \<le> y))"

definition clt :: "cell \<Rightarrow> cell \<Rightarrow> bool" where
  "clt a b = (case a of None \<Rightarrow> False | Some x \<Rightarrow> (case b of None \<Rightarrow> False | Some y \<Rightarrow> x < y))"

definition np_digitize :: "cell list \<Rightarrow> cell \<Rightarrow> nat" where
  "np_digitize bins x =
     (if cle (bins ! 0) (bins ! 1) then length (filter (\<lambda>b. cle b x) (take 2 bins))
      else length (filter (\<lambda>b. clt x b) (take 2 bins)))"

subsection \<open>The random number generator\<close>

text \<open>
  numpy's global generator is a state of an abstract type \<open>'g\<close> with the four primitives
  the generator's calls reach: seeding, a double in \<open>[0, 1)\<close>, a standard normal variate
  and a random permutation of \<open>0, ..., n - 1\<close>.
\<close>

record 'g rng =
  rk_seed :: "nat \<Rightarrow> 'g"
  rk_double :: "'g \<Rightarrow> real \<times> 'g"
  rk_gauss :: "'g \<Rightarrow> real \<times> 'g"
  rk_permutation :: "nat \<Rightarrow> 'g \<Rightarrow> nat list \<times> 'g"

text \<open>\<^verbatim>\<open>np.random.random()\<close>, \<^verbatim>\<open>np.random.uniform(lo, hi)\<close> and
  \<^verbatim>\<open>np.random.normal(mu, sigma)\<close>, one value each.\<close>

definition np_random :: "'g rng \<Rightarrow> 'g \<Rightarrow> real \<times> 'g" where
  "np_random R g = rk_double R g"

definition np_uniform :: "'g rng \<Rightarrow> real \<Rightarrow> real \<Rightarrow> 'g \<Rightarrow> real \<times> 'g" where
  "np_uniform R lo hi g = (case rk_double R g of (u, g1) \<Rightarrow> (lo + (hi - lo) * u, g1))"

definition np_normal :: "'g rng \<Rightarrow> real \<Rightarrow> real \<Rightarrow> 'g \<Rightarrow> real \<times> 'g" where
  "np_normal R mu sigma g = (case rk_gauss R g of (z, g1) \<Rightarrow> (mu + sigma * z, g1))"

text \<open>\<^verbatim>\<open>np.random.normal(mu, sigma, n)\<close> and \<^verbatim>\<open>np.random.random_sample(n)\<close>: \<open>n\<close>
  successive draws.\<close>

fun np_normals :: "'g rng \<Rightarrow> real \<Rightarrow> real \<Rightarrow> nat \<Rightarrow> 'g \<Rightarrow> real list \<times> 'g" where
  "np_normals R mu sigma 0 g = ([], g)"
| "np_normals R mu sigma (Suc n) g =
     (case np_normal R mu sigma g of (x, g1) \<Rightarrow>
        (case np_normals R mu sigma n g1 of (xs, g2) \<Rightarrow> (x # xs, g2)))"

fun np_random_sample :: "'g rng \<Rightarrow> nat \<Rightarrow> 'g \<Rightarrow> real list \<times> 'g" where
  "np_random_sample R 0 g = ([], g)"
| "np_random_sample R (Suc n) g =
     (case rk_double R g of (x, g1) \<Rightarrow>
        (case np_random_sample R n g1 of (xs, g2) \<Rightarrow> (x # xs, g2)))"

text \<open>\<^verbatim>\<open>np.random.choice(a, size=n, p=p)\<close>: the cumulative sums of \<open>p\<close>, normalised by
  the last one, \<open>n\<close> doubles, and for each the index \<^verbatim>\<open>searchsorted(cdf, u, 'right')\<close>
  into \<open>a\<close>.\<close>

fun cumsum :: "real \<Rightarrow> real list \<Rightarrow> real list" where
  "cumsum acc [] = []"
| "cumsum acc (p # ps) = (acc + p) # cumsum (acc + p) ps"

definition cdf_of :: "real list \<Rightarrow> real list" where
  "cdf_of p = (let cs = cumsum 0 p in map (\<lambda>c. c / last cs) cs)"

definition searchsorted_right :: "real list \<Rightarrow> real \<Rightarrow> nat" where
  "searchsorted_right cdf u = length (filter (\<lambda>c. c \<le> u) cdf)"

definition np_choice_p :: "'g rng \<Rightarrow> 'a list \<Rightarrow> real list \<Rightarrow> nat \<Rightarrow> 'g \<Rightarrow> py_error + ('a list \<times> 'g)" where
  "np_choice_p R a p n g =
     (case np_random_sample R n g of (us, g1) \<Rightarrow>
        (let idx = map (searchsorted_right (cdf_of p)) us in
         if list_all (\<lambda>i. i < length a) idx then Inr (map (\<lambda>i. a ! i) idx, g1)
         else Inl IndexError))"

text \<open>\<^verbatim>\<open>np.random.choice(a, size=k, replace=False)\<close>: the first \<open>k\<close> entries of a
  permutation of the positions of \<open>a\<close>.\<close>

definition np_choice_no_replace :: "'g rng \<Rightarrow> 'a list \<Rightarrow> nat \<Rightarrow> 'g \<Rightarrow> py_error + ('a list \<times> 'g)" where
  "np_choice_no_replace R a k g =
     (case rk_permutation R (length a) g of (perm, g1) \<Rightarrow>
        (let idx = take k perm in
         if list_all (\<lambda>i. i < length a) idx then Inr (map (\<lambda>i. a ! i) idx, g1)
         else Inl IndexError))"

subsection \<open>Lines 47 to 55: the honest students\<close>

definition make_non_cheaters :: "'g rng \<Rightarrow> nat \<Rightarrow> 'g \<Rightarrow> frame \<times> 'g" where
  "make_non_cheaters R m g =
     (case np_normals R 0 1 m g of (ability, g1) \<Rightarrow>
      (let df0 = [(''ability'', map Some ability), (''cheater'', replicate m (Some 0))] in
       case np_normals R 0 0.8 m g1 of (noise_c, g2) \<Rightarrow>
       (let df1 = set_col df0 ''coursework_raw'' (col_plus (col df0 ''ability'') noise_c) in
        case np_normals R 0 0.8 m g2 of (noise_e, g3) \<Rightarrow>
          (set_col df1 ''exam_raw'' (col_plus (col df1 ''ability'') noise_e), g3))))"

subsection \<open>Lines 58 to 92: the cheaters and their cheating patterns\<close>

definition cheater_type_names :: "string list" where
  "cheater_type_names = [''coursework_advantage'', ''exam_advantage'', ''consistent'']"

text \<open>One round of the loop of line 77, for row \<open>i\<close> of type \<open>t\<close>.\<close>

fun cheater_pattern :: "'g rng \<Rightarrow> nat \<times> string \<Rightarrow> frame \<times> 'g \<Rightarrow> frame \<times> 'g" where
  "cheater_pattern R (i, t) (df, g) =
     (if t = ''coursework_advantage'' then
        (case np_uniform R 1.0 2.5 g of (u, g1) \<Rightarrow>
         (let df1 = set_cell df i ''coursework_raw'' (cadd (cell_at df i ''ability'') (Some u)) in
          case np_normal R 0 0.8 g1 of (z, g2) \<Rightarrow>
            (set_cell df1 i ''exam_raw'' (cadd (cell_at df1 i ''ability'') (Some z)), g2)))
      else if t = ''exam_advantage'' then
        (case np_normal R 0 0.8 g of (z, g1) \<Rightarrow>
         (let df1 = set_cell df i ''coursework_raw'' (cadd (cell_at df i ''ability'') (Some z)) in
          case np_uniform R 1.5 3.0 g1 of (u, g2) \<Rightarrow>
            (set_cell df1 i ''exam_raw'' (cadd (cell_at df1 i ''ability'') (Some u)), g2)))
      else
        (case np_uniform R 1.0 2.0 g of (both_boost, g1) \<Rightarrow>
         (case np_normal R 0 0.2 g1 of (z1, g2) \<Rightarrow>
          (let df1 = set_cell df i ''coursework_raw''
                       (cadd (cadd (cell_at df i ''ability'') (Some both_boost)) (Some z1)) in
           case np_normal R 0 0.2 g2 of (z2, g3) \<Rightarrow>
             (set_cell df1 i ''exam_raw''
                (cadd (cadd (cell_at df1 i ''ability'') (Some both_boost)) (Some z2)), g3)))))"

definition make_cheaters :: "'g rng \<Rightarrow> nat \<Rightarrow> 'g \<Rightarrow> py_error + (frame \<times> 'g)" where
  "make_cheaters R m g =
     (case np_normals R (- 0.5) 1 m g of (ability, g1) \<Rightarrow>
      (let df0 = [(''ability'', map Some ability), (''cheater'', replicate m (Some 1))] in
       case np_normals R 0 0.8 m g1 of (noise_c, g2) \<Rightarrow>
       (let df1 = set_col df0 ''coursework_raw'' (col_plus (col df0 ''ability'') noise_c) in
        case np_choice_p R cheater_type_names [0.5, 0.3, 0.2] m g2 of
          Inl e \<Rightarrow> Inl e
        | Inr (cheater_types, g3) \<Rightarrow>
            Inr (fold (cheater_pattern R) (enumerate 0 cheater_types) (df1, g3)))))"

subsection \<open>Lines 100 to 115: subject variation\<close>

fun subject_row :: "'g rng \<Rightarrow> frame \<Rightarrow> nat \<Rightarrow> cell list list \<times> 'g \<Rightarrow> cell list list \<times> 'g" where
  "subject_row R df i (scores, g) =
     (let base_ability = cell_at df i ''ability'' in
      if cell_at df i ''cheater'' = Some 0 then
        (case np_normals R 0 1 5 g of (zs, g1) \<Rightarrow>
           (scores[i := map (\<lambda>z. cadd base_ability (Some z)) zs], g1))
      else
        (case np_random R g of (u, g1) \<Rightarrow>
           if u < 0.7 then
             (case np_normals R 0 0.4 5 g1 of (zs, g2) \<Rightarrow>
                (scores[i := map (\<lambda>z. cadd base_ability (Some z)) zs], g2))
           else
             (case np_normals R 0 1 5 g1 of (zs, g2) \<Rightarrow>
                (scores[i := map (\<lambda>z. cadd base_ability (Some z)) zs], g2))))"

definition add_subject_variation :: "'g rng \<Rightarrow> nat \<Rightarrow> frame \<Rightarrow> 'g \<Rightarrow> frame \<times> 'g" where
  "add_subject_variation R n df g =
     (case fold (subject_row R df) [0..<n] (replicate n (replicate 5 (Some 0)), g) of
        (subject_scores, g1) \<Rightarrow> (set_col df ''subject_variation'' (map np_std subject_scores), g1))"

subsection \<open>Lines 118 to 127: historical trend\<close>

text \<open>\<^verbatim>\<open>data[data['cheater'] == 1].index\<close>.\<close>

definition cheater_indices :: "frame \<Rightarrow> nat list" where
  "cheater_indices df = filter (\<lambda>i. cell_at df i ''cheater'' = Some 1) [0..<nrows df]"

text \<open>\<^verbatim>\<open>past_performance[idx] -= np.random.uniform(0.5, 1.5)\<close>, for a label \<open>idx\<close> of the
  series.\<close>

fun worsen_past :: "'g rng \<Rightarrow> nat \<Rightarrow> column \<times> 'g \<Rightarrow> column \<times> 'g" where
  "worsen_past R idx (past, g) =
     (case np_uniform R 0.5 1.5 g of (u, g1) \<Rightarrow>
        (past[idx := csub (if idx < length past then past ! idx else None) (Some u)], g1))"

text \<open>The double that the literal \<^verbatim>\<open>0.6\<close> of line 122 denotes.\<close>

definition double_0_6 :: real where
  "double_0_6 = 5404319552844595 / 2 ^ 53"

definition add_historical_trend ::
    "'g rng \<Rightarrow> nat \<Rightarrow> nat list \<Rightarrow> frame \<Rightarrow> 'g \<Rightarrow> py_error + (frame \<times> 'g)" where
  "add_historical_trend R n ci df g =
     (case np_normals R 0 0.5 n g of (noise, g1) \<Rightarrow>
      (let past_performance = col_plus (col df ''ability'') noise;
           current_performance =
             map (\<lambda>(c, e). cdiv (cadd c e) (Some 2)) (zip (col df ''coursework_raw'') (col df ''exam_raw''))
       in case np_choice_no_replace R ci (nat (py_int (to_double (real (length ci) * double_0_6)))) g1 of
            Inl e \<Rightarrow> Inl e
          | Inr (sudden_improvers, g2) \<Rightarrow>
              (case fold (worsen_past R) sudden_improvers (past_performance, g2) of
                 (past', g3) \<Rightarrow>
                   Inr (set_col df ''historical_trend''
                          (map (\<lambda>(c, p). csub c p) (zip current_performance past')), g3))))"

subsection \<open>Lines 130 to 137: exam time\<close>

text \<open>One round of the loop of line 131, for the cheater in row \<open>i\<close>.\<close>

fun exam_time_skew :: "'g rng \<Rightarrow> nat \<Rightarrow> frame \<times> 'g \<Rightarrow> frame \<times> 'g" where
  "exam_time_skew R i (df, g) =
     (case np_random R g of (u1, g1) \<Rightarrow>
        if u1 < 0.4 then
          (case np_uniform R 1.5 3 g1 of (v, g2) \<Rightarrow>
             (set_cell df i ''exam_time_std'' (Some (- v)), g2))
        else
          (case np_random R g1 of (u2, g2) \<Rightarrow>
             if u2 < 0.7 then
               (case np_uniform R 1.5 3 g2 of (v, g3) \<Rightarrow>
                  (set_cell df i ''exam_time_std'' (Some v), g3))
             else (df, g2)))"

definition add_exam_time :: "'g rng \<Rightarrow> nat \<Rightarrow> nat list \<Rightarrow> frame \<Rightarrow> 'g \<Rightarrow> frame \<times> 'g" where
  "add_exam_time R n ci df g =
     (case np_normals R 0 1 n g of (zs, g1) \<Rightarrow>
        fold (exam_time_skew R) ci (set_col df ''exam_time_std'' (map Some zs), g1))"

subsection \<open>Lines 140 to 150: peer comparison\<close>

definition ability_groups :: "frame \<Rightarrow> py_error + nat list" where
  "ability_groups df =
     (case np_percentile (col df ''ability'') [33, 66] of
        Inl e \<Rightarrow> Inl e
      | Inr ability_percentiles \<Rightarrow>
          Inr (map (np_digitize ability_percentiles) (col df ''ability'')))"

text \<open>The dictionary of line 144: for each of the keys 0, 1, 2 the mean of
  \<^verbatim>\<open>exam_raw\<close> over the rows of that group.\<close>

definition avg_group_exam :: "frame \<Rightarrow> nat list \<Rightarrow> (nat \<times> cell) list" where
  "avg_group_exam df groups =
     map (\<lambda>i. (i, pd_mean (map snd (filter (\<lambda>ge. fst ge = i) (zip groups (col df ''exam_raw''))))))
         [0..<3]"

fun peer_loop :: "(nat \<times> cell) list \<Rightarrow> nat list \<Rightarrow> nat list \<Rightarrow> frame \<Rightarrow> py_error + frame" where
  "peer_loop avg groups [] df = Inr df"
| "peer_loop avg groups (i # rest) df =
     (if length groups \<le> i then Inl IndexError
      else case map_of avg (groups ! i) of
             None \<Rightarrow> Inl KeyError
           | Some expected_score \<Rightarrow>
               peer_loop avg groups rest
                 (set_cell df i ''peer_comparison'' (csub (cell_at df i ''exam_raw'') expected_score)))"

definition add_peer_comparison :: "nat \<Rightarrow> frame \<Rightarrow> py_error + frame" where
  "add_peer_comparison n df =
     (case ability_groups df of
        Inl e \<Rightarrow> Inl e
      | Inr groups \<Rightarrow>
          (let avg = avg_group_exam df groups
           in peer_loop avg groups [0..<n]
                (set_col df ''peer_comparison'' (replicate (nrows df) (Some 0)))))"

subsection \<open>Lines 153 to 155: z-scores\<close>

text \<open>\<^verbatim>\<open>(s - s.mean()) / s.std()\<close> for a series \<open>s\<close>.\<close>

definition z_score :: "column \<Rightarrow> column" where
  "z_score c = (let m = pd_mean c; s = pd_std c in map (\<lambda>x. cdiv (csub x m) s) c)"

definition add_z_scores :: "frame \<Rightarrow> frame" where
  "add_z_scores df =
     (let df1 = set_col df ''coursework_z'' (z_score (col df ''coursework_raw''));
          df2 = set_col df1 ''exam_z'' (z_score (col df1 ''exam_raw''))
      in set_col df2 ''z_diff''
           (map (\<lambda>(a, b). csub a b) (zip (col df2 ''coursework_z'') (col df2 ''exam_z''))))"

subsection \<open>Lines 158 to 168: score variance\<close>

fun score_variance_row :: "'g rng \<Rightarrow> nat \<Rightarrow> frame \<times> 'g \<Rightarrow> frame \<times> 'g" where
  "score_variance_row R i (df, g) =
     (if cell_at df i ''cheater'' = Some 1 then
        (case np_random R g of (u, g1) \<Rightarrow>
           if u < 0.7 then
             (case np_normals R 1.2 0.3 8 g1 of (zs, g2) \<Rightarrow>
                (set_cell df i ''score_variance''
                   (np_std (map (\<lambda>z. cadd (cell_at df i ''ability'') (Some z)) zs)), g2))
           else
             (case np_normals R 0 1 8 g1 of (zs, g2) \<Rightarrow>
                (set_cell df i ''score_variance''
                   (np_std (map (\<lambda>z. cadd (cell_at df i ''ability'') (Some z)) zs)), g2)))
      else
        (case np_normals R 0 1 8 g of (zs, g1) \<Rightarrow>
           (set_cell df i ''score_variance''
              (np_std (map (\<lambda>z. cadd (cell_at df i ''ability'') (Some z)) zs)), g1)))"

definition add_score_variance :: "'g rng \<Rightarrow> nat \<Rightarrow> frame \<Rightarrow> 'g \<Rightarrow> frame \<times> 'g" where
  "add_score_variance R n df g = fold (score_variance_row R) [0..<n] (df, g)"

subsection \<open>Lines 171 to 179: anomaly score\<close>

text \<open>\<^verbatim>\<open>IsolationForest(contamination=0.2, random_state=42).fit_predict\<close>: a function
  of the feature columns (its random state is seeded by the call itself) that answers
  1 or -1 for every row, or raises.\<close>

type_synonym detector = "column list \<Rightarrow> py_error + int list"

definition features_for_anomaly :: "string list" where
  "features_for_anomaly = [''coursework_z'', ''exam_z'', ''z_diff'', ''score_variance'',
                           ''subject_variation'', ''historical_trend'']"

text \<open>\<^verbatim>\<open>data[nms]\<close>: KeyError when a column is missing.\<close>

definition select_cols :: "frame \<Rightarrow> string list \<Rightarrow> py_error + column list" where
  "select_cols df nms =
     (if list_all (\<lambda>nm. nm \<in> set (names df)) nms then Inr (map (col df) nms) else Inl KeyError)"

definition add_anomaly_score :: "detector \<Rightarrow> frame \<Rightarrow> py_error + frame" where
  "add_anomaly_score iso_forest df =
     (case select_cols df features_for_anomaly of
        Inl e \<Rightarrow> Inl e
      | Inr X \<Rightarrow>
          (case iso_forest X of
             Inl e \<Rightarrow> Inl e
           | Inr anomaly_scores \<Rightarrow>
               if length anomaly_scores \<noteq> nrows df then Inl LengthMismatch
               else
                 (let df1 = set_col df ''anomaly_score'' (map (\<lambda>l. Some (real_of_int l)) anomaly_scores)
                  in Inr (set_col df1 ''anomaly_score''
                            (map (\<lambda>v. Some (if v = Some (- 1) then 1 else 0)) (col df1 ''anomaly_score''))))))"

subsection \<open>The generator\<close>

text \<open>Lines 40 to 168: everything before the detector runs. \<open>g0\<close> is the state of
  numpy's global generator when the function is called; line 40 replaces it.\<close>

definition build_features :: "'g rng \<Rightarrow> 'g \<Rightarrow> int \<Rightarrow> real \<Rightarrow> py_error + (frame \<times> 'g)" where
  "build_features R g0 n_samples cheater_ratio =
     (let g = rk_seed R 42;
          n_cheaters = n_cheaters_of n_samples cheater_ratio;
          n_non_cheaters = n_samples - n_cheaters
      in if n_non_cheaters < 0 then Inl NegativeDimensions
         else case make_non_cheaters R (nat n_non_cheaters) g of (non_cheaters, g1) \<Rightarrow>
           if n_cheaters < 0 then Inl NegativeDimensions
           else case make_cheaters R (nat n_cheaters) g1 of
               Inl e \<Rightarrow> Inl e
             | Inr (cheaters, g2) \<Rightarrow>
                (let data = pd_concat non_cheaters cheaters; n = nat n_samples in
                 case add_subject_variation R n data g2 of (data1, g3) \<Rightarrow>
                 (case add_historical_trend R n (cheater_indices data1) data1 g3 of
                    Inl e \<Rightarrow> Inl e
                  | Inr (data2, g4) \<Rightarrow>
                     (case add_exam_time R n (cheater_indices data1) data2 g4 of (data3, g5) \<Rightarrow>
                      (case add_peer_comparison n data3 of
                         Inl e \<Rightarrow> Inl e
                       | Inr data4 \<Rightarrow> Inr (add_score_variance R n (add_z_scores data4) g5))))))"

definition generate_realistic_cheating_data ::
    "'g rng \<Rightarrow> detector \<Rightarrow> 'g \<Rightarrow> int \<Rightarrow> real \<Rightarrow> py_error + (frame \<times> 'g)" where
  "generate_realistic_cheating_data R iso_forest g0 n_samples cheater_ratio =
     (case build_features R g0 n_samples cheater_ratio of
        Inl e \<Rightarrow> Inl e
      | Inr (data, g) \<Rightarrow>
          (case add_anomaly_score iso_forest data of
             Inl e \<Rightarrow> Inl e
           | Inr data1 \<Rightarrow> Inr (drop_cols data1 [''ability'', ''coursework_raw'', ''exam_raw''], g)))"

subsection \<open>Auxiliary notions for the proofs\<close>

text \<open>The column names after an assignment to column \<open>nm\<close>.\<close>

definition names_add :: "string list \<Rightarrow> string \<Rightarrow> string list" where
  "names_add ns nm = (if nm \<in> set ns then ns else ns @ [nm])"

text \<open>A frame with at least one column, all of whose columns have \<open>n\<close> cells.\<close>

definition rect :: "nat \<Rightarrow> frame \<Rightarrow> bool" where
  "rect n df = (df \<noteq> [] \<and> list_all (\<lambda>kc. length (snd kc) = n) df)"

text \<open>The frame of the cheaters when the loop of line 77 starts.\<close>

definition cheaters_start :: "'g rng \<Rightarrow> nat \<Rightarrow> 'g \<Rightarrow> frame" where
  "cheaters_start R m g =
     set_col [(''ability'', map Some (fst (np_normals R (- 0.5) 1 m g))),
              (''cheater'', replicate m (Some 1))]
       ''coursework_raw''
       (col_plus (map Some (fst (np_normals R (- 0.5) 1 m g)))
          (fst (np_normals R 0 0.8 m (snd (np_normals R (- 0.5) 1 m g)))))"

text \<open>The columns of the frame after line 95, of the frame before the detector runs (the
  loop of line 158 creates \<^verbatim>\<open>score_variance\<close> in its first round, so a frame without rows
  never gets it) and of the returned table.\<close>

definition base_names :: "string list" where
  "base_names = [''ability'', ''cheater'', ''coursework_raw'', ''exam_raw'']"

definition feature_names :: "nat \<Rightarrow> string list" where
  "feature_names n = base_names @ [''subject_variation'', ''historical_trend'', ''exam_time_std'',
     ''peer_comparison'', ''coursework_z'', ''exam_z'', ''z_diff''] @
     (if n = 0 then [] else [''score_variance''])"

definition output_columns :: "string list" where
  "output_columns = [''cheater'', ''subject_variation'', ''historical_trend'', ''exam_time_std'',
     ''peer_comparison'', ''coursework_z'', ''exam_z'', ''z_diff'', ''score_variance'',
     ''anomaly_score'']"

text \<open>What numpy's generator guarantees: a double lies in \<open>[0, 1)\<close>, and a permutation of
  \<open>n\<close> positions lists each of \<open>0, ..., n - 1\<close> once.\<close>

definition rng_ok :: "'g rng \<Rightarrow> bool" where
  "rng_ok R = ((\<forall>g. 0 \<le> fst (rk_double R g) \<and> fst (rk_double R g) < 1) \<and>
               (\<forall>n g. distinct (fst (rk_permutation R n g)) \<and>
                      set (fst (rk_permutation R n g)) = {..<n}))"

text \<open>A detector that answers one label for each row of the feature columns it is given.\<close>

definition detector_ok :: "detector \<Rightarrow> bool" where
  "detector_ok iso_forest =
     (\<forall>X. X \<noteq> [] \<and> list_all (\<lambda>c. length c = length (hd X)) X \<longrightarrow>
          (\<exists>ls. iso_forest X = Inr ls \<and> length ls = length (hd X)))"

text \<open>A concrete generator and a concrete detector, to run the generator on: the state is a
  counter, the draws cycle through ten doubles and seven normal variates, a permutation
  is the reversal; the detector flags the first row.\<close>

definition counter_rng :: "nat rng" where
  "counter_rng = \<lparr> rk_seed = (\<lambda>s. s),
                   rk_double = (\<lambda>g. (real (g mod 10) / 10, Suc g)),
                   rk_gauss = (\<lambda>g. (real (g mod 7) - 3, Suc g)),
                   rk_permutation = (\<lambda>n g. (rev [0..<n], Suc g)) \<rparr>"

definition flag_first :: detector where
  "flag_first X = Inr (map (\<lambda>i. if i = 0 then - 1 else 1) [0..<length (hd X)])"

text \<open>The returned table, if the call returns one, and the number of its rows that carry
  a given label.\<close>

definition returned :: "py_error + (frame \<times> 'g) \<Rightarrow> frame option" where
  "returned res = (case res of Inl e \<Rightarrow> None | Inr (tbl, g) \<Rightarrow> Some tbl)"

definition count_label :: "real \<Rightarrow> frame \<Rightarrow> nat" where
  "count_label v tbl = length (filter (\<lambda>c. c = Some v) (col tbl ''cheater''))"

text \<open>The generator up to the detector with the cheater-only logic deleted: no frame of
  cheaters and no pattern loop (lines 58 to 92), no sudden-improvement loop (lines 123
  and 124), no exam-time loop (lines 131 to 137). Line 122 still asks for a permutation of
  no positions.\<close>

definition historical_trend_honest :: "'g rng \<Rightarrow> nat \<Rightarrow> frame \<Rightarrow> 'g \<Rightarrow> frame \<times> 'g" where
  "historical_trend_honest R n df g =
     (case np_normals R 0 0.5 n g of (noise, g1) \<Rightarrow>
      (let past_performance = col_plus (col df ''ability'') noise;
           current_performance =
             map (\<lambda>(c, e). cdiv (cadd c e) (Some 2)) (zip (col df ''coursework_raw'') (col df ''exam_raw''))
       in (set_col df ''historical_trend''
             (map (\<lambda>(c, p). csub c p) (zip current_performance past_performance)),
           snd (rk_permutation R 0 g1))))"

definition exam_time_honest :: "'g rng \<Rightarrow> nat \<Rightarrow> frame \<Rightarrow> 'g \<Rightarrow> frame \<times> 'g" where
  "exam_time_honest R n df g =
     (case np_normals R 0 1 n g of (zs, g1) \<Rightarrow> (set_col df ''exam_time_std'' (map Some zs), g1))"

definition build_features_honest :: "'g rng \<Rightarrow> nat \<Rightarrow> py_error + (frame \<times> 'g)" where
  "build_features_honest R n =
     (case make_non_cheaters R n (rk_seed R 42) of (data, g1) \<Rightarrow>
      case add_subject_variation R n data g1 of (data1, g2) \<Rightarrow>
      case historical_trend_honest R n data1 g2 of (data2, g3) \<Rightarrow>
      case exam_time_honest R n data2 g3 of (data3, g4) \<Rightarrow>
      case add_peer_comparison n data3 of
        Inl e \<Rightarrow> Inl e
      | Inr data4 \<Rightarrow> Inr (add_score_variance R n (add_z_scores data4) g4))"


section \<open>Properties of the steps\<close>

subsection \<open>Rounding to a double\<close>

lemma round_half_even_of_int: "round_half_even (real_of_int k) = k"
  by (simp add: round_half_even_def)

lemma round_half_even_bounds: "\<lfloor>x\<rfloor> \<le> round_half_even x" "round_half_even x \<le> \<lceil>x\<rceil>"
  by (auto simp: round_half_even_def intro: order_trans [OF floor_le_ceiling] )

lemma floor_log2_bounds:
  assumes "0 < x"
  shows "2 powr real_of_int \<lfloor>log 2 x\<rfloor> \<le> x" "x < 2 powr real_of_int (\<lfloor>log 2 x\<rfloor> + 1)"
proof -
  have "(real_of_int \<lfloor>log 2 x\<rfloor> \<le> log 2 x) = (2 powr real_of_int \<lfloor>log 2 x\<rfloor> \<le> x)"
    by (rule le_log_iff) (use assms in simp_all)
  then show "2 powr real_of_int \<lfloor>log 2 x\<rfloor> \<le> x" by simp
  have "(log 2 x < real_of_int (\<lfloor>log 2 x\<rfloor> + 1)) = (x < 2 powr real_of_int (\<lfloor>log 2 x\<rfloor> + 1))"
    by (rule log_less_iff) (use assms in simp_all)
  moreover have "log 2 x < real_of_int (\<lfloor>log 2 x\<rfloor> + 1)" by linarith
  ultimately show "x < 2 powr real_of_int (\<lfloor>log 2 x\<rfloor> + 1)" by blast
qed

lemma floor_log2_eq:
  assumes "2 powr real_of_int e \<le> x" "x < 2 powr real_of_int (e + 1)"
  shows "\<lfloor>log 2 x\<rfloor> = e"
proof -
  have "0 < 2 powr real_of_int e" by simp
  with assms(1) have x: "0 < x" by linarith
  have "(real_of_int e \<le> log 2 x) = (2 powr real_of_int e \<le> x)"
    by (rule le_log_iff) (use x in simp_all)
  then have "real_of_int e \<le> log 2 x" using assms(1) by blast
  moreover have "(log 2 x < real_of_int (e + 1)) = (x < 2 powr real_of_int (e + 1))"
    by (rule log_less_iff) (use x in simp_all)
  then have "log 2 x < real_of_int (e + 1)" using assms(2) by blast
  ultimately show ?thesis by linarith
qed

lemma to_double_by_exponent:
  assumes "2 powr real_of_int e \<le> \<bar>x\<bar>" "\<bar>x\<bar> < 2 powr real_of_int (e + 1)"
  shows "to_double x =
     real_of_int (round_half_even (x / 2 powr real_of_int (e - 52))) * 2 powr real_of_int (e - 52)"
proof -
  have "x \<noteq> 0" using assms(1) powr_gt_zero [of 2 "real_of_int e"] by auto
  then show ?thesis
    by (simp add: to_double_def Let_def floor_log2_eq [OF assms])
qed

lemma to_double_dyadic:
  assumes x: "x = real_of_int m * 2 powr real_of_int k" and m: "\<bar>m\<bar> < 2 ^ 53"
  shows "to_double x = x"
proof (cases "m = 0")
  case True
  then show ?thesis by (simp add: x to_double_def)
next
  case False
  define a where "a = \<lfloor>log 2 \<bar>real_of_int m\<bar>\<rfloor>"
  have mpos: "0 < \<bar>real_of_int m\<bar>" using False by simp
  have lo: "2 powr real_of_int a \<le> \<bar>real_of_int m\<bar>"
    and hi: "\<bar>real_of_int m\<bar> < 2 powr real_of_int (a + 1)"
    unfolding a_def using floor_log2_bounds [OF mpos] by blast+
  have mb: "\<bar>real_of_int m\<bar> < 2 ^ 53"
    using m by (metis of_int_abs of_int_less_numeral_power_cancel_iff)
  have "(log 2 \<bar>real_of_int m\<bar> < 53) = (\<bar>real_of_int m\<bar> < 2 powr 53)"
    by (rule log_less_iff) (use mpos in simp_all)
  then have "log 2 \<bar>real_of_int m\<bar> < 53" using mb by simp
  then have a52: "a \<le> 52" unfolding a_def by linarith
  define j where "j = nat (52 - a)"
  have j: "real_of_int (52 - a) = real j" using a52 by (simp add: j_def)
  have ax: "\<bar>x\<bar> = \<bar>real_of_int m\<bar> * 2 powr real_of_int k" by (simp add: x abs_mult)
  have lo': "2 powr real_of_int (a + k) \<le> \<bar>x\<bar>"
    unfolding ax using lo by (simp add: powr_add)
  have hi': "\<bar>x\<bar> < 2 powr real_of_int (a + k + 1)"
  proof -
    have "\<bar>real_of_int m\<bar> * 2 powr real_of_int k < 2 powr real_of_int (a + 1) * 2 powr real_of_int k"
      using hi by simp
    also have "\<dots> = 2 powr real_of_int (a + k + 1)"
      by (simp add: powr_add [symmetric] algebra_simps)
    finally show ?thesis unfolding ax .
  qed
  have sc: "x / 2 powr real_of_int (a + k - 52) = real_of_int (m * 2 ^ j)"
  proof -
    have "x / 2 powr real_of_int (a + k - 52) =
          real_of_int m * (2 powr real_of_int k / 2 powr real_of_int (a + k - 52))"
      by (simp add: x)
    also have "2 powr real_of_int k / 2 powr real_of_int (a + k - 52) = 2 powr real_of_int (52 - a)"
      by (simp add: powr_diff [symmetric] algebra_simps)
    also have "\<dots> = 2 ^ j" unfolding j by (simp add: powr_realpow)
    finally show ?thesis by simp
  qed
  have "to_double x =
     real_of_int (round_half_even (x / 2 powr real_of_int (a + k - 52))) * 2 powr real_of_int (a + k - 52)"
    using lo' hi' by (rule to_double_by_exponent)
  also have "\<dots> = real_of_int (m * 2 ^ j) * 2 powr real_of_int (a + k - 52)"
    unfolding sc round_half_even_of_int ..
  also have "\<dots> = x"
    using sc by (simp add: field_simps)
  finally show ?thesis .
qed

lemma to_double_of_int: "\<bar>m\<bar> < 2 ^ 53 \<Longrightarrow> to_double (real_of_int m) = real_of_int m"
  using to_double_dyadic [of "real_of_int m" m 0] by simp

lemma to_double_range:
  assumes x0: "0 \<le> x" and xn: "x \<le> real_of_int n" and n: "n < 2 ^ 53"
  shows "0 \<le> to_double x" and "to_double x \<le> real_of_int n"
proof -
  have "0 \<le> to_double x \<and> to_double x \<le> real_of_int n"
  proof (cases "x = 0")
    case True
    then show ?thesis using xn by (simp add: to_double_def)
  next
    case False
    then have xpos: "0 < x" using x0 by simp
    define e where "e = \<lfloor>log 2 x\<rfloor>"
    define s :: real where "s = 2 powr real_of_int (e - 52)"
    have spos: "0 < s" by (simp add: s_def)
    have td: "to_double x = real_of_int (round_half_even (x / s)) * s"
      using False xpos by (simp add: to_double_def Let_def e_def s_def)
    have "0 \<le> x / s" using xpos spos by simp
    then have "0 \<le> \<lfloor>x / s\<rfloor>" by simp
    then have "0 \<le> round_half_even (x / s)"
      using round_half_even_bounds(1) [of "x / s"] by linarith
    then have lo: "0 \<le> to_double x" using spos by (simp add: td)
    have nb: "real_of_int n < 2 ^ 53"
      using n by (metis of_int_less_numeral_power_cancel_iff)
    have "x < 2 ^ 53" using xn nb by linarith
    have "(log 2 x < 53) = (x < 2 powr 53)"
      by (rule log_less_iff) (use xpos in simp_all)
    then have "log 2 x < 53" using \<open>x < 2 ^ 53\<close> by simp
    then have e52: "e \<le> 52" unfolding e_def by linarith
    define j where "j = nat (52 - e)"
    have j: "real_of_int (52 - e) = real j" using e52 by (simp add: j_def)
    have "1 / s = 2 powr real_of_int (52 - e)"
      by (simp add: s_def powr_minus_divide [symmetric])
    also have "\<dots> = 2 ^ j" unfolding j by (simp add: powr_realpow)
    finally have inv: "1 / s = 2 ^ j" .
    have "real_of_int n / s = real_of_int n * (1 / s)" by simp
    also have "\<dots> = real_of_int (n * 2 ^ j)" unfolding inv by simp
    finally have ns: "real_of_int n / s = real_of_int (n * 2 ^ j)" .
    have "x / s \<le> real_of_int n / s" using xn spos by (simp add: divide_right_mono)
    then have "\<lceil>x / s\<rceil> \<le> n * 2 ^ j" unfolding ns by (simp add: ceiling_le_iff)
    then have "round_half_even (x / s) \<le> n * 2 ^ j"
      using round_half_even_bounds(2) [of "x / s"] by linarith
    then have "real_of_int (round_half_even (x / s)) \<le> real_of_int (n * 2 ^ j)"
      by (simp only: of_int_le_iff)
    then have "real_of_int (round_half_even (x / s)) * s \<le> real_of_int (n * 2 ^ j) * s"
      using spos by (simp only: mult_le_cancel_right_pos)
    also have "real_of_int (n * 2 ^ j) * s = real_of_int n"
      using ns spos by (simp add: field_simps)
    finally have "to_double x \<le> real_of_int n" unfolding td .
    with lo show ?thesis ..
  qed
  then show "0 \<le> to_double x" and "to_double x \<le> real_of_int n" by blast+
qed

lemma to_double_zero: "to_double 0 = 0"
  by (simp add: to_double_def)

lemma n_cheaters_of_small:
  "\<bar>n\<bar> < 2 ^ 53 \<Longrightarrow> n_cheaters_of n r = py_int (to_double (real_of_int n * r))"
  by (simp add: n_cheaters_of_def to_double_of_int)

lemma n_cheaters_of_range:
  assumes "0 \<le> n" "n < 2 ^ 53" "0 \<le> r" "r \<le> 1"
  shows "0 \<le> n_cheaters_of n r" and "n_cheaters_of n r \<le> n"
proof -
  have x0: "0 \<le> real_of_int n * r" using assms(1,3) by simp
  have xn: "real_of_int n * r \<le> real_of_int n"
    using assms(1,4) by (simp add: mult_left_le)
  note T = to_double_range [OF x0 xn assms(2)]
  have small: "n_cheaters_of n r = py_int (to_double (real_of_int n * r))"
    using assms(1,2) by (intro n_cheaters_of_small) simp
  show "0 \<le> n_cheaters_of n r" using T(1) by (simp add: small py_int_def)
  have "\<lfloor>to_double (real_of_int n * r)\<rfloor> \<le> n" using T(2) by (simp add: floor_le_iff)
  then show "n_cheaters_of n r \<le> n" using T(1) by (simp add: small py_int_def)
qed

lemma n_cheaters_of_zero: "n_cheaters_of 0 r = 0"
  by (simp add: n_cheaters_of_def to_double_zero py_int_def)

lemma n_cheaters_of_ratio_zero: "n_cheaters_of n 0 = 0"
  by (simp add: n_cheaters_of_def to_double_zero py_int_def)

lemma n_cheaters_of_ratio_one: "\<bar>n\<bar> < 2 ^ 53 \<Longrightarrow> n_cheaters_of n 1 = n"
  by (simp add: n_cheaters_of_small to_double_of_int py_int_def)

subsection \<open>Frames\<close>

lemma names_set_col: "names (set_col df nm c) = names_add (names df) nm"
  by (induction df) (auto simp: names_def names_add_def)

lemma map_of_set_col: "map_of (set_col df nm c) = (map_of df)(nm \<mapsto> c)"
  by (induction df) (auto simp: fun_eq_iff)

lemma col_set_col: "col (set_col df nm c) nm' = (if nm' = nm then c else col df nm')"
  by (simp add: col_def map_of_set_col)

lemma set_col_nonempty: "set_col df nm c \<noteq> []"
  by (cases df) auto

lemma list_all_set_col:
  "list_all P df \<Longrightarrow> P (nm, c) \<Longrightarrow> list_all P (set_col df nm c)"
  by (induction df) auto

lemma rect_set_col: "rect n df \<Longrightarrow> length c = n \<Longrightarrow> rect n (set_col df nm c)"
  by (simp add: rect_def set_col_nonempty list_all_set_col)

lemma rect_nrows: "rect n df \<Longrightarrow> nrows df = n"
  by (cases df) (auto simp: rect_def nrows_def)

lemma rect_map_of: "rect n df \<Longrightarrow> map_of df nm = Some c \<Longrightarrow> length c = n"
  by (auto simp: rect_def list_all_iff dest!: map_of_SomeD)

lemma rect_col_or_nan: "rect n df \<Longrightarrow> length (col_or_nan df nm) = n"
  by (auto simp: col_or_nan_def rect_nrows rect_map_of split: option.splits)

lemma map_of_names: "(map_of df nm = None) = (nm \<notin> set (names df))"
  by (simp add: names_def map_of_eq_None_iff)

lemma rect_col: "rect n df \<Longrightarrow> nm \<in> set (names df) \<Longrightarrow> length (col df nm) = n"
  by (cases "map_of df nm") (auto simp: col_def map_of_names rect_map_of)

lemma col_or_nan_col: "nm \<in> set (names df) \<Longrightarrow> col_or_nan df nm = col df nm"
  by (cases "map_of df nm") (auto simp: col_def col_or_nan_def map_of_names)

lemma names_set_cell: "names (set_cell df i nm v) = names_add (names df) nm"
  by (simp add: set_cell_def names_set_col)

lemma col_set_cell:
  "col (set_cell df i nm v) nm' = (if nm' = nm then (col_or_nan df nm)[i := v] else col df nm')"
  by (simp add: set_cell_def col_set_col)

lemma rect_set_cell: "rect n df \<Longrightarrow> rect n (set_cell df i nm v)"
  by (simp add: set_cell_def rect_set_col rect_col_or_nan)

lemma cell_at_set_cell_other:
  "nm' \<noteq> nm \<Longrightarrow> cell_at (set_cell df i nm v) j nm' = cell_at df j nm'"
  by (simp add: cell_at_def col_set_cell)

lemma names_add_mem: "nm \<in> set ns \<Longrightarrow> names_add ns nm = ns"
  by (simp add: names_add_def)

lemma names_add_idem: "names_add (names_add ns nm) nm = names_add ns nm"
  by (simp add: names_add_def)

lemma set_names_add: "set (names_add ns nm) = insert nm (set ns)"
  by (auto simp: names_add_def)

lemma names_drop_cols: "names (drop_cols df nms) = filter (\<lambda>nm. nm \<notin> set nms) (names df)"
  by (simp add: names_def drop_cols_def filter_map comp_def)

lemma map_of_drop_cols: "nm \<notin> set nms \<Longrightarrow> map_of (drop_cols df nms) nm = map_of df nm"
  by (induction df) (auto simp: drop_cols_def)

lemma col_drop_cols: "nm \<notin> set nms \<Longrightarrow> col (drop_cols df nms) nm = col df nm"
  by (simp add: col_def map_of_drop_cols)

lemma list_all_drop_cols: "list_all P df \<Longrightarrow> list_all P (drop_cols df nms)"
  by (simp add: drop_cols_def list_all_iff)

lemma fold_invariant:
  "P s \<Longrightarrow> (\<And>x s. x \<in> set xs \<Longrightarrow> P s \<Longrightarrow> P (f x s)) \<Longrightarrow> P (fold f xs s)"
  by (induction xs arbitrary: s) auto

lemma length_np_normals: "length (fst (np_normals R mu sigma n g)) = n"
  by (induction n arbitrary: g) (simp_all add: case_prod_beta)

lemma length_np_random_sample: "length (fst (np_random_sample R n g)) = n"
  by (induction n arbitrary: g) (simp_all add: case_prod_beta)

lemma length_col_plus: "length (col_plus c xs) = min (length c) (length xs)"
  by (simp add: col_plus_def)

lemma col_plus_finite: "None \<notin> set c \<Longrightarrow> None \<notin> set (col_plus c xs)"
  by (auto simp: col_plus_def cadd_def split: option.splits dest: set_zip_leftD)

lemma cadd_Some_iff: "(cadd a (Some x) = None) = (a = None)"
  by (simp add: cadd_def split: option.splits)

lemma cadd_cadd: "cadd (cadd a (Some x)) (Some y) = cadd a (Some (x + y))"
  by (simp add: cadd_def split: option.splits)

lemma cell_at_col_or_nan:
  "rect n df \<Longrightarrow> cell_at df j nm = (if j < n then col_or_nan df nm ! j else None)"
  by (cases "map_of df nm") (auto simp: cell_at_def col_or_nan_def col_def rect_nrows rect_map_of)

lemma cell_at_set_cell_same:
  assumes "rect n df" "i < n"
  shows "cell_at (set_cell df i nm v) j nm = (if j = i then v else cell_at df j nm)"
proof -
  have len: "length (col_or_nan df nm) = n"
    using assms(1) by (rule rect_col_or_nan)
  have L: "cell_at (set_cell df i nm v) j nm = (if j < n then (col_or_nan df nm)[i := v] ! j else None)"
    by (simp add: cell_at_def col_set_cell len)
  have R: "cell_at df j nm = (if j < n then col_or_nan df nm ! j else None)"
    using assms(1) by (rule cell_at_col_or_nan)
  show ?thesis
    unfolding L R using assms(2) len by auto
qed

subsection \<open>The honest students\<close>

lemma make_non_cheaters_names:
  "names (fst (make_non_cheaters R m g)) = [''ability'', ''cheater'', ''coursework_raw'', ''exam_raw'']"
  by (simp add: make_non_cheaters_def Let_def names_set_col names_add_def names_def case_prod_beta)

lemma make_non_cheaters_rect: "rect m (fst (make_non_cheaters R m g))"
  by (simp add: make_non_cheaters_def Let_def rect_def col_def length_col_plus case_prod_beta
        length_np_normals)

lemma make_non_cheaters_cheater:
  "col (fst (make_non_cheaters R m g)) ''cheater'' = replicate m (Some 0)"
  by (simp add: make_non_cheaters_def Let_def col_def case_prod_beta)

lemma make_non_cheaters_finite:
  "None \<notin> set (col (fst (make_non_cheaters R m g)) ''ability'')"
  "None \<notin> set (col (fst (make_non_cheaters R m g)) ''exam_raw'')"
  by (auto simp: make_non_cheaters_def Let_def col_def case_prod_beta col_plus_def cadd_def
        dest!: set_zip_leftD)

subsection \<open>The cheaters\<close>

lemma cheater_pattern_shape:
  "\<exists>x y g'. cheater_pattern R (i, t) (df, g) =
     (set_cell (set_cell df i ''coursework_raw'' (cadd (cell_at df i ''ability'') (Some x)))
        i ''exam_raw'' (cadd (cell_at df i ''ability'') (Some y)), g')"
  by (simp add: case_prod_beta Let_def cell_at_set_cell_other cadd_cadd) blast

lemma cheater_pattern_step:
  assumes "rect m df" "i < m" "cell_at df i ''ability'' \<noteq> None"
    and "cheater_pattern R (i, t) (df, g) = (df', g')"
  shows "rect m df'"
    and "nm \<noteq> ''coursework_raw'' \<Longrightarrow> nm \<noteq> ''exam_raw'' \<Longrightarrow> col df' nm = col df nm"
    and "cell_at df' j ''exam_raw'' = (if j = i then cell_at df' i ''exam_raw'' else cell_at df j ''exam_raw'')"
    and "cell_at df' i ''exam_raw'' \<noteq> None"
    and "names df' = names_add (names_add (names df) ''coursework_raw'') ''exam_raw''"
proof -
  obtain x y h where eq: "cheater_pattern R (i, t) (df, g) =
     (set_cell (set_cell df i ''coursework_raw'' (cadd (cell_at df i ''ability'') (Some x)))
        i ''exam_raw'' (cadd (cell_at df i ''ability'') (Some y)), h)"
    using cheater_pattern_shape [of R i t df g] by blast
  let ?d1 = "set_cell df i ''coursework_raw'' (cadd (cell_at df i ''ability'') (Some x))"
  have df': "df' = set_cell ?d1 i ''exam_raw'' (cadd (cell_at df i ''ability'') (Some y))"
    using eq assms(4) by simp
  have r1: "rect m ?d1" using assms(1) by (rule rect_set_cell)
  show "rect m df'" unfolding df' using r1 by (rule rect_set_cell)
  show "nm \<noteq> ''coursework_raw'' \<Longrightarrow> nm \<noteq> ''exam_raw'' \<Longrightarrow> col df' nm = col df nm"
    unfolding df' by (simp add: col_set_cell)
  have e: "cell_at df' j ''exam_raw'' =
      (if j = i then cadd (cell_at df i ''ability'') (Some y) else cell_at ?d1 j ''exam_raw'')" for j
    unfolding df' using assms(2) by (simp add: cell_at_set_cell_same [OF r1])
  show "cell_at df' i ''exam_raw'' \<noteq> None"
    using assms(3) by (simp add: e cadd_Some_iff)
  show "cell_at df' j ''exam_raw'' = (if j = i then cell_at df' i ''exam_raw'' else cell_at df j ''exam_raw'')"
    by (simp add: e cell_at_set_cell_other)
  show "names df' = names_add (names_add (names df) ''coursework_raw'') ''exam_raw''"
    unfolding df' by (simp add: names_set_cell)
qed

lemma cell_at_cong_col: "col df' nm = col df nm \<Longrightarrow> cell_at df' j nm = cell_at df j nm"
  by (simp add: cell_at_def)

lemma cheater_loop:
  assumes "rect m df" "k + length ts \<le> m"
    and "\<forall>j<m. cell_at df j ''ability'' \<noteq> None"
    and "\<forall>j<k. cell_at df j ''exam_raw'' \<noteq> None"
    and "fold (cheater_pattern R) (enumerate k ts) (df, g) = (df', g')"
  shows "rect m df' \<and> col df' ''ability'' = col df ''ability'' \<and> col df' ''cheater'' = col df ''cheater''
     \<and> (\<forall>j < k + length ts. cell_at df' j ''exam_raw'' \<noteq> None)
     \<and> names df' = (if ts = [] then names df
                    else names_add (names_add (names df) ''coursework_raw'') ''exam_raw'')"
  using assms
proof (induction ts arbitrary: k df g)
  case Nil
  then show ?case by simp
next
  case (Cons t ts)
  have km: "k < m" using Cons.prems(2) by simp
  then have ab: "cell_at df k ''ability'' \<noteq> None" using Cons.prems(3) by simp
  obtain d1 g1 where s: "cheater_pattern R (k, t) (df, g) = (d1, g1)"
    by (cases "cheater_pattern R (k, t) (df, g)")
  note st = cheater_pattern_step [OF Cons.prems(1) km ab s]
  have ca: "col d1 ''ability'' = col df ''ability''" by (rule st(2)) simp_all
  have cc: "col d1 ''cheater'' = col df ''cheater''" by (rule st(2)) simp_all
  have a1: "\<forall>j<m. cell_at d1 j ''ability'' \<noteq> None"
    using Cons.prems(3) by (simp add: cell_at_cong_col [OF ca])
  have e1: "\<forall>j<Suc k. cell_at d1 j ''exam_raw'' \<noteq> None"
  proof (intro allI impI)
    fix j assume "j < Suc k"
    then show "cell_at d1 j ''exam_raw'' \<noteq> None"
      using st(3) [of j] st(4) Cons.prems(4) by (cases "j = k") auto
  qed
  have le: "Suc k + length ts \<le> m" using Cons.prems(2) by simp
  have f: "fold (cheater_pattern R) (enumerate (Suc k) ts) (d1, g1) = (df', g')"
    using Cons.prems(5) s by simp
  note ih = Cons.IH [OF st(1) le a1 e1 f]
  have nm: "names df' = names_add (names_add (names df) ''coursework_raw'') ''exam_raw''"
    using ih st(5) by (simp add: names_add_def)
  show ?case
    using ih ca cc nm by simp
qed

lemma np_choice_p_length:
  "np_choice_p R a p n g = Inr (xs, g') \<Longrightarrow> length xs = n"
  by (auto simp: np_choice_p_def Let_def case_prod_beta length_np_random_sample split: if_splits)

lemma cheaters_start_props:
  "rect m (cheaters_start R m g)"
  "names (cheaters_start R m g) = [''ability'', ''cheater'', ''coursework_raw'']"
  "col (cheaters_start R m g) ''cheater'' = replicate m (Some 1)"
  "\<forall>j<m. cell_at (cheaters_start R m g) j ''ability'' \<noteq> None"
  by (simp_all add: cheaters_start_def rect_def length_col_plus length_np_normals names_def
        col_def cell_at_def)

lemma make_cheaters_unfold:
  "make_cheaters R m g = Inr (df, g') \<Longrightarrow>
   \<exists>ts h. length ts = m \<and> fold (cheater_pattern R) (enumerate 0 ts) (cheaters_start R m g, h) = (df, g')"
proof -
  assume a: "make_cheaters R m g = Inr (df, g')"
  let ?g2 = "snd (np_normals R 0 0.8 m (snd (np_normals R (- 0.5) 1 m g)))"
  obtain ts h where c: "np_choice_p R cheater_type_names [0.5, 0.3, 0.2] m ?g2 = Inr (ts, h)"
    using a by (auto simp: make_cheaters_def Let_def case_prod_beta split: sum.splits)
  have "fold (cheater_pattern R) (enumerate 0 ts) (cheaters_start R m g, h) = (df, g')"
    using a c by (simp add: make_cheaters_def cheaters_start_def Let_def case_prod_beta col_def)
  moreover have "length ts = m" using c by (rule np_choice_p_length)
  ultimately show ?thesis by blast
qed

lemma make_cheaters_props:
  assumes "make_cheaters R m g = Inr (df, g')"
  shows "rect m df"
    and "col df ''cheater'' = replicate m (Some 1)"
    and "names df = (if m = 0 then [''ability'', ''cheater'', ''coursework_raw'']
                     else [''ability'', ''cheater'', ''coursework_raw'', ''exam_raw''])"
    and "\<forall>j<m. cell_at df j ''ability'' \<noteq> None"
    and "\<forall>j<m. cell_at df j ''exam_raw'' \<noteq> None"
proof -
  obtain ts h where ts: "length ts = m"
      "fold (cheater_pattern R) (enumerate 0 ts) (cheaters_start R m g, h) = (df, g')"
    using make_cheaters_unfold [OF assms] by blast
  have le: "0 + length ts \<le> m" using ts(1) by simp
  have e0: "\<forall>j<0::nat. cell_at (cheaters_start R m g) j ''exam_raw'' \<noteq> None" by simp
  note L = cheater_loop [OF cheaters_start_props(1) le cheaters_start_props(4) e0 ts(2)]
  show "rect m df" using L by simp
  show "col df ''cheater'' = replicate m (Some 1)"
    using L by (simp add: cheaters_start_props(3))
  show "names df = (if m = 0 then [''ability'', ''cheater'', ''coursework_raw'']
                     else [''ability'', ''cheater'', ''coursework_raw'', ''exam_raw''])"
    using L ts(1) by (auto simp: cheaters_start_props(2) names_add_def)
  have ca: "col df ''ability'' = col (cheaters_start R m g) ''ability''" using L by simp
  show "\<forall>j<m. cell_at df j ''ability'' \<noteq> None"
    using cheaters_start_props(4) [of m R g] by (simp add: cell_at_cong_col [OF ca])
  show "\<forall>j<m. cell_at df j ''exam_raw'' \<noteq> None"
    using L ts(1) by simp
qed

subsection \<open>Concatenation\<close>

lemma map_of_map_key: "map_of (map (\<lambda>k. (k, f k)) ks) k = (if k \<in> set ks then Some (f k) else None)"
  by (induction ks) auto

lemma names_pd_concat:
  "names (pd_concat a b) = names a @ filter (\<lambda>nm. nm \<notin> set (names a)) (names b)"
  by (simp add: pd_concat_def names_def comp_def)

lemma col_pd_concat:
  "nm \<in> set (names a) \<Longrightarrow> col (pd_concat a b) nm = col a nm @ col_or_nan b nm"
proof -
  assume a: "nm \<in> set (names a)"
  have "map_of (pd_concat a b) nm = Some (col_or_nan a nm @ col_or_nan b nm)"
    unfolding pd_concat_def map_of_map_key using a by simp
  then show ?thesis by (simp add: col_def [of "pd_concat a b"] col_or_nan_col [OF a])
qed

lemma rect_pd_concat:
  assumes "rect na a" "rect nb b"
  shows "rect (na + nb) (pd_concat a b)"
proof -
  have "a \<noteq> []" using assms(1) by (simp add: rect_def)
  then have "pd_concat a b \<noteq> []" by (simp add: pd_concat_def names_def)
  moreover have "list_all (\<lambda>kc. length (snd kc) = na + nb) (pd_concat a b)"
    unfolding pd_concat_def list_all_iff
    by (auto simp: rect_col_or_nan [OF assms(1)] rect_col_or_nan [OF assms(2)])
  ultimately show ?thesis by (simp add: rect_def)
qed

subsection \<open>Loops that set cells of one column\<close>

lemma fold_cells:
  assumes step: "\<And>x d h. (\<exists>i v. fst (f x (d, h)) = set_cell d i nm v) \<or> fst (f x (d, h)) = d"
  shows "rect n df \<Longrightarrow> rect n (fst (fold f xs (df, g)))"
    and "nm' \<noteq> nm \<Longrightarrow> col (fst (fold f xs (df, g))) nm' = col df nm'"
    and "nm \<in> set (names df) \<Longrightarrow> names (fst (fold f xs (df, g))) = names df"
proof -
  have all: "(rect n df \<longrightarrow> rect n (fst (fold f xs (df, g))))
      \<and> (nm' \<noteq> nm \<longrightarrow> col (fst (fold f xs (df, g))) nm' = col df nm')
      \<and> (nm \<in> set (names df) \<longrightarrow> names (fst (fold f xs (df, g))) = names df)"
  proof (induction xs arbitrary: df g)
    case Nil
    show ?case by simp
  next
    case (Cons x xs)
    obtain d1 g1 where s: "f x (df, g) = (d1, g1)" by (cases "f x (df, g)")
    have d1: "(\<exists>i v. d1 = set_cell df i nm v) \<or> d1 = df"
      using step [of x df g] s by simp
    have a: "rect n df \<longrightarrow> rect n d1" using d1 by (auto simp: rect_set_cell)
    have b: "nm' \<noteq> nm \<longrightarrow> col d1 nm' = col df nm'" using d1 by (auto simp: col_set_cell)
    have c: "nm \<in> set (names df) \<longrightarrow> names d1 = names df"
      using d1 by (auto simp: names_set_cell names_add_def)
    show ?case using Cons.IH [of d1 g1] a b c s by simp
  qed
  show "rect n df \<Longrightarrow> rect n (fst (fold f xs (df, g)))" using all by simp
  show "nm' \<noteq> nm \<Longrightarrow> col (fst (fold f xs (df, g))) nm' = col df nm'" using all by simp
  show "nm \<in> set (names df) \<Longrightarrow> names (fst (fold f xs (df, g))) = names df" using all by simp
qed

lemma fold_cells_names:
  assumes step: "\<And>x d h. \<exists>i v. fst (f x (d, h)) = set_cell d i nm v"
  shows "names (fst (fold f xs (df, g))) = (if xs = [] then names df else names_add (names df) nm)"
proof (cases xs)
  case Nil
  then show ?thesis by simp
next
  case (Cons x ys)
  obtain d1 g1 where s: "f x (df, g) = (d1, g1)" by (cases "f x (df, g)")
  obtain i v where d1: "d1 = set_cell df i nm v" using step [of x df g] s by auto
  have n1: "names d1 = names_add (names df) nm" by (simp add: d1 names_set_cell)
  have "nm \<in> set (names d1)" by (simp add: n1 set_names_add)
  then have "names (fst (fold f ys (d1, g1))) = names d1"
    using fold_cells(3) [of f nm d1 ys g1] step by blast
  then show ?thesis using Cons s n1 by simp
qed

lemma fold_length:
  assumes "\<And>x c h. length (fst (f x (c, h))) = length c"
  shows "length (fst (fold f xs (c, g))) = length c"
proof (induction xs arbitrary: c g)
  case Nil
  show ?case by simp
next
  case (Cons x xs)
  obtain c1 g1 where s: "f x (c, g) = (c1, g1)" by (cases "f x (c, g)")
  have "length c1 = length c" using assms [of x c g] s by simp
  then show ?case using Cons.IH [of c1 g1] s by simp
qed

subsection \<open>Subject variation, historical trend, exam time\<close>

lemma subject_row_length: "length (fst (subject_row R df i (scores, g))) = length scores"
  by (simp add: Let_def case_prod_beta)

lemma add_subject_variation_props:
  assumes "add_subject_variation R n df g = (df', g')"
  shows "names df' = names_add (names df) ''subject_variation''"
    and "rect n df \<Longrightarrow> rect n df'"
    and "nm \<noteq> ''subject_variation'' \<Longrightarrow> col df' nm = col df nm"
proof -
  let ?sc = "fst (fold (subject_row R df) [0..<n] (replicate n (replicate 5 (Some 0)), g))"
  have df': "df' = set_col df ''subject_variation'' (map np_std ?sc)"
    using assms by (simp add: add_subject_variation_def case_prod_beta)
  have len: "length ?sc = n"
    using fold_length [of "subject_row R df", OF subject_row_length] by simp
  show "names df' = names_add (names df) ''subject_variation''" by (simp add: df' names_set_col)
  show "rect n df \<Longrightarrow> rect n df'" unfolding df' using len by (simp add: rect_set_col)
  show "nm \<noteq> ''subject_variation'' \<Longrightarrow> col df' nm = col df nm" by (simp add: df' col_set_col)
qed

lemma worsen_past_length: "length (fst (worsen_past R idx (past, g))) = length past"
  by (simp add: case_prod_beta)

lemma add_historical_trend_props:
  assumes "add_historical_trend R n ci df g = Inr (df', g')"
  shows "names df' = names_add (names df) ''historical_trend''"
    and "rect n df \<Longrightarrow> {''ability'', ''coursework_raw'', ''exam_raw''} \<subseteq> set (names df) \<Longrightarrow> rect n df'"
    and "nm \<noteq> ''historical_trend'' \<Longrightarrow> col df' nm = col df nm"
proof -
  let ?g1 = "snd (np_normals R 0 0.5 n g)"
  let ?past = "col_plus (col df ''ability'') (fst (np_normals R 0 0.5 n g))"
  let ?cur = "map (\<lambda>(c, e). cdiv (cadd c e) (Some 2)) (zip (col df ''coursework_raw'') (col df ''exam_raw''))"
  obtain si g2 where ch: "np_choice_no_replace R ci (nat (py_int (to_double (real (length ci) * double_0_6)))) ?g1 = Inr (si, g2)"
    using assms by (auto simp: add_historical_trend_def Let_def case_prod_beta split: sum.splits)
  let ?past' = "fst (fold (worsen_past R) si (?past, g2))"
  have df': "df' = set_col df ''historical_trend'' (map (\<lambda>(c, p). csub c p) (zip ?cur ?past'))"
    using assms ch by (simp add: add_historical_trend_def Let_def case_prod_beta)
  have lp: "length ?past' = length ?past"
    by (rule fold_length [of "worsen_past R", OF worsen_past_length])
  show "names df' = names_add (names df) ''historical_trend''" by (simp add: df' names_set_col)
  show "nm \<noteq> ''historical_trend'' \<Longrightarrow> col df' nm = col df nm" by (simp add: df' col_set_col)
  assume r: "rect n df" and sub: "{''ability'', ''coursework_raw'', ''exam_raw''} \<subseteq> set (names df)"
  have "length (map (\<lambda>(c, p). csub c p) (zip ?cur ?past')) = n"
    using r sub lp by (simp add: length_col_plus length_np_normals rect_col)
  then show "rect n df'" unfolding df' using r by (simp add: rect_set_col)
qed

lemma exam_time_skew_shape:
  "(\<exists>i' v. fst (exam_time_skew R i (d, h)) = set_cell d i' ''exam_time_std'' v)
   \<or> fst (exam_time_skew R i (d, h)) = d"
  by (simp add: case_prod_beta) blast

lemma add_exam_time_props:
  assumes "add_exam_time R n ci df g = (df', g')"
  shows "names df' = names_add (names df) ''exam_time_std''"
    and "rect n df \<Longrightarrow> rect n df'"
    and "nm \<noteq> ''exam_time_std'' \<Longrightarrow> col df' nm = col df nm"
proof -
  let ?d0 = "set_col df ''exam_time_std'' (map Some (fst (np_normals R 0 1 n g)))"
  let ?g0 = "snd (np_normals R 0 1 n g)"
  have df': "df' = fst (fold (exam_time_skew R) ci (?d0, ?g0))"
    using assms by (simp add: add_exam_time_def case_prod_beta)
  note F = fold_cells [of "exam_time_skew R" "''exam_time_std''", OF exam_time_skew_shape]
  have "''exam_time_std'' \<in> set (names ?d0)" by (simp add: names_set_col set_names_add)
  then show "names df' = names_add (names df) ''exam_time_std''"
    unfolding df' by (simp add: F(3) names_set_col)
  show "rect n df \<Longrightarrow> rect n df'"
    unfolding df' by (rule F(1)) (simp add: rect_set_col length_np_normals)
  show "nm \<noteq> ''exam_time_std'' \<Longrightarrow> col df' nm = col df nm"
    unfolding df' by (simp add: F(2) col_set_col)
qed

subsection \<open>Peer comparison, z-scores, score variance, anomaly score\<close>

lemma peer_loop_props:
  assumes "peer_loop avg groups js df = Inr df'"
  shows "rect n df \<Longrightarrow> rect n df'"
    and "nm \<noteq> ''peer_comparison'' \<Longrightarrow> col df' nm = col df nm"
    and "''peer_comparison'' \<in> set (names df) \<Longrightarrow> names df' = names df"
proof -
  have all: "(rect n df \<longrightarrow> rect n df')
      \<and> (nm \<noteq> ''peer_comparison'' \<longrightarrow> col df' nm = col df nm)
      \<and> (''peer_comparison'' \<in> set (names df) \<longrightarrow> names df' = names df)"
    using assms
  proof (induction js arbitrary: df)
    case Nil
    then show ?case by simp
  next
    case (Cons i js)
    obtain e where e: "map_of avg (groups ! i) = Some e"
      and rest: "peer_loop avg groups js
          (set_cell df i ''peer_comparison'' (csub (cell_at df i ''exam_raw'') e)) = Inr df'"
      using Cons.prems by (auto split: if_splits option.splits)
    note ih = Cons.IH [OF rest]
    show ?case
      using ih by (auto simp: rect_set_cell col_set_cell names_set_cell names_add_def)
  qed
  show "rect n df \<Longrightarrow> rect n df'" using all by simp
  show "nm \<noteq> ''peer_comparison'' \<Longrightarrow> col df' nm = col df nm" using all by simp
  show "''peer_comparison'' \<in> set (names df) \<Longrightarrow> names df' = names df" using all by simp
qed

lemma np_digitize_lt3: "np_digitize bins x < 3"
proof -
  have le: "length (filter P (take 2 bins)) < 3" for P :: "cell \<Rightarrow> bool"
  proof -
    have "length (filter P (take 2 bins)) \<le> length (take 2 bins)" by (rule length_filter_le)
    also have "\<dots> \<le> 2" by simp
    finally show ?thesis by simp
  qed
  show ?thesis
    by (cases "cle (bins ! 0) (bins ! 1)") (simp_all only: np_digitize_def if_True if_False le)
qed

lemma ability_groups_Inr:
  assumes "ability_groups df = Inr groups"
  shows "groups = map (np_digitize (map (\<lambda>q. case those (col df ''ability'') of None \<Rightarrow> None
                  | Some xs \<Rightarrow>
                      (let s = sort xs;
                           pos = q / 100 * real (length xs - 1);
                           lo = nat \<lfloor>pos\<rfloor>;
                           hi = min (lo + 1) (length xs - 1)
                       in Some (s ! lo + (pos - real lo) * (s ! hi - s ! lo)))) [33, 66]))
                  (col df ''ability'')"
    and "col df ''ability'' \<noteq> []"
  using assms by (auto simp: ability_groups_def np_percentile_def split: if_splits)

lemma ability_groups_shape:
  assumes "ability_groups df = Inr groups"
  shows "length groups = length (col df ''ability'')" and "\<forall>k\<in>set groups. k < 3"
  unfolding ability_groups_Inr(1) [OF assms] by (auto simp: np_digitize_lt3)

lemma ability_groups_succeeds:
  "col df ''ability'' \<noteq> [] \<Longrightarrow> \<exists>groups. ability_groups df = Inr groups"
  by (simp add: ability_groups_def np_percentile_def)

lemma ability_groups_empty: "col df ''ability'' = [] \<Longrightarrow> ability_groups df = Inl IndexError"
  by (simp add: ability_groups_def np_percentile_def)

lemma add_peer_comparison_cases:
  assumes "add_peer_comparison n df = Inr df'"
  obtains groups where "ability_groups df = Inr groups"
    "peer_loop (avg_group_exam df groups) groups [0..<n]
       (set_col df ''peer_comparison'' (replicate (nrows df) (Some 0))) = Inr df'"
  using assms by (auto simp: add_peer_comparison_def Let_def split: sum.splits)

lemma add_peer_comparison_props:
  assumes "add_peer_comparison n df = Inr df'"
  shows "names df' = names_add (names df) ''peer_comparison''"
    and "rect n df \<Longrightarrow> rect n df'"
    and "nm \<noteq> ''peer_comparison'' \<Longrightarrow> col df' nm = col df nm"
proof -
  let ?d0 = "set_col df ''peer_comparison'' (replicate (nrows df) (Some 0))"
  from assms obtain groups where
    pl: "peer_loop (avg_group_exam df groups) groups [0..<n] ?d0 = Inr df'"
    by (rule add_peer_comparison_cases)
  note P = peer_loop_props [OF pl]
  have "''peer_comparison'' \<in> set (names ?d0)" by (simp add: names_set_col set_names_add)
  then show "names df' = names_add (names df) ''peer_comparison''"
    by (simp add: P(3) names_set_col)
  show "rect n df \<Longrightarrow> rect n df'"
    by (rule P(1)) (simp add: rect_set_col rect_nrows)
  show "nm \<noteq> ''peer_comparison'' \<Longrightarrow> col df' nm = col df nm"
    by (simp add: P(2) col_set_col)
qed

lemma length_z_score: "length (z_score c) = length c"
  by (simp add: z_score_def Let_def)

lemma add_z_scores_props:
  "names (add_z_scores df) =
     names_add (names_add (names_add (names df) ''coursework_z'') ''exam_z'') ''z_diff''"
  "rect n df \<Longrightarrow> {''coursework_raw'', ''exam_raw''} \<subseteq> set (names df) \<Longrightarrow> rect n (add_z_scores df)"
  "nm \<noteq> ''coursework_z'' \<Longrightarrow> nm \<noteq> ''exam_z'' \<Longrightarrow> nm \<noteq> ''z_diff'' \<Longrightarrow>
     col (add_z_scores df) nm = col df nm"
  "col (add_z_scores df) ''coursework_z'' = z_score (col df ''coursework_raw'')"
  "col (add_z_scores df) ''exam_z'' = z_score (col df ''exam_raw'')"
  "col (add_z_scores df) ''z_diff'' =
     map (\<lambda>(a, b). csub a b) (zip (col (add_z_scores df) ''coursework_z'') (col (add_z_scores df) ''exam_z''))"
  by (simp_all add: add_z_scores_def Let_def names_set_col col_set_col rect_set_col length_z_score
        rect_col)

lemma score_variance_row_shape:
  "\<exists>i' v. fst (score_variance_row R i (d, h)) = set_cell d i' ''score_variance'' v"
  by (simp add: case_prod_beta) blast

lemma add_score_variance_props:
  assumes "add_score_variance R n df g = (df', g')"
  shows "names df' = (if n = 0 then names df else names_add (names df) ''score_variance'')"
    and "rect n df \<Longrightarrow> rect n df'"
    and "nm \<noteq> ''score_variance'' \<Longrightarrow> col df' nm = col df nm"
proof -
  have df': "df' = fst (fold (score_variance_row R) [0..<n] (df, g))"
    using assms by (simp add: add_score_variance_def)
  have sh: "(\<exists>i' v. fst (score_variance_row R i (d, h)) = set_cell d i' ''score_variance'' v)
      \<or> fst (score_variance_row R i (d, h)) = d" for i d h
    using score_variance_row_shape [of R i d h] by blast
  note F = fold_cells [of "score_variance_row R" "''score_variance''", OF sh]
  show "names df' = (if n = 0 then names df else names_add (names df) ''score_variance'')"
    unfolding df'
    using fold_cells_names [of "score_variance_row R" "''score_variance''" "[0..<n]" df g,
        OF score_variance_row_shape]
    by simp
  show "rect n df \<Longrightarrow> rect n df'" unfolding df' by (rule F(1))
  show "nm \<noteq> ''score_variance'' \<Longrightarrow> col df' nm = col df nm" unfolding df' by (rule F(2))
qed

lemma add_anomaly_score_props:
  assumes "add_anomaly_score iso_forest df = Inr df'"
  shows "names df' = names_add (names df) ''anomaly_score''"
    and "rect n df \<Longrightarrow> rect n df'"
    and "nm \<noteq> ''anomaly_score'' \<Longrightarrow> col df' nm = col df nm"
    and "set features_for_anomaly \<subseteq> set (names df)"
proof -
  obtain X ls where X: "select_cols df features_for_anomaly = Inr X"
    and ls: "iso_forest X = Inr ls" "length ls = nrows df"
    using assms by (auto simp: add_anomaly_score_def split: sum.splits if_splits)
  let ?d1 = "set_col df ''anomaly_score'' (map (\<lambda>l. Some (real_of_int l)) ls)"
  have df': "df' = set_col ?d1 ''anomaly_score''
      (map (\<lambda>v. Some (if v = Some (- 1) then 1 else 0)) (col ?d1 ''anomaly_score''))"
    using assms X ls by (simp add: add_anomaly_score_def Let_def)
  show "names df' = names_add (names df) ''anomaly_score''"
    by (simp add: df' names_set_col names_add_idem)
  show "nm \<noteq> ''anomaly_score'' \<Longrightarrow> col df' nm = col df nm"
    by (simp add: df' col_set_col)
  show "set features_for_anomaly \<subseteq> set (names df)"
    using X by (auto simp: select_cols_def list_all_iff split: if_splits)
  assume r: "rect n df"
  then have "length ls = n" using ls(2) by (simp add: rect_nrows)
  then show "rect n df'"
    unfolding df' using r by (simp add: rect_set_col col_set_col)
qed

subsection \<open>The frame before the detector runs\<close>

lemma cells_finite:
  assumes "rect m df" "nm \<in> set (names df)" "\<forall>j<m. cell_at df j nm \<noteq> None"
  shows "None \<notin> set (col df nm)"
proof -
  have len: "length (col df nm) = m" using assms(1,2) by (rule rect_col)
  show ?thesis
  proof
    assume "None \<in> set (col df nm)"
    then obtain j where "j < length (col df nm)" "col df nm ! j = None"
      by (auto simp: in_set_conv_nth)
    then show False using assms(3) len by (auto simp: cell_at_def)
  qed
qed

lemma make_cheaters_finite:
  assumes "make_cheaters R m g = Inr (df, g')"
  shows "None \<notin> set (col df ''ability'')"
    and "None \<notin> set (col_or_nan df ''exam_raw'')"
proof -
  note P = make_cheaters_props [OF assms]
  have ab: "''ability'' \<in> set (names df)" by (simp add: P(3))
  show "None \<notin> set (col df ''ability'')" using P(1) ab P(4) by (rule cells_finite)
  show "None \<notin> set (col_or_nan df ''exam_raw'')"
  proof (cases "m = 0")
    case True
    then have "map_of df ''exam_raw'' = None" by (simp add: map_of_names P(3))
    then show ?thesis using True rect_nrows [OF P(1)] by (simp add: col_or_nan_def)
  next
    case False
    then have ex: "''exam_raw'' \<in> set (names df)" by (simp add: P(3))
    have "None \<notin> set (col df ''exam_raw'')" using P(1) ex P(5) by (rule cells_finite)
    then show ?thesis by (simp add: col_or_nan_col [OF ex])
  qed
qed

lemma combined_props:
  fixes k :: nat and h :: 'g
  assumes "make_cheaters R m g = Inr (ch, g')"
    and d0_def: "d0 = pd_concat (fst (make_non_cheaters R k h)) ch"
  shows "names d0 = base_names"
    and "rect (k + m) d0"
    and "col d0 ''cheater'' = replicate k (Some 0) @ replicate m (Some 1)"
    and "None \<notin> set (col d0 ''ability'')"
    and "None \<notin> set (col d0 ''exam_raw'')"
proof -
  let ?a = "fst (make_non_cheaters R k h)"
  note P = make_cheaters_props [OF assms(1)]
  note F = make_cheaters_finite [OF assms(1)]
  have na: "names ?a = base_names" by (simp add: make_non_cheaters_names base_names_def)
  have sub: "set (names ch) \<subseteq> set (names ?a)" by (auto simp: na P(3) base_names_def)
  have "filter (\<lambda>nm. nm \<notin> set (names ?a)) (names ch) = []"
    using sub by (auto simp: filter_empty_conv)
  then show "names d0 = base_names" by (simp add: d0_def names_pd_concat na)
  show "rect (k + m) d0" unfolding d0_def
    using make_non_cheaters_rect P(1) by (rule rect_pd_concat)
  have chn: "''cheater'' \<in> set (names ch)" "''ability'' \<in> set (names ch)" by (simp_all add: P(3))
  show "col d0 ''cheater'' = replicate k (Some 0) @ replicate m (Some 1)"
    by (simp add: d0_def col_pd_concat na base_names_def make_non_cheaters_cheater
          col_or_nan_col [OF chn(1)] P(2))
  show "None \<notin> set (col d0 ''ability'')"
    using make_non_cheaters_finite(1) [of R k h] F(1)
    by (simp add: d0_def col_pd_concat na base_names_def col_or_nan_col [OF chn(2)])
  show "None \<notin> set (col d0 ''exam_raw'')"
    using make_non_cheaters_finite(2) [of R k h] F(2)
    by (simp add: d0_def col_pd_concat na base_names_def)
qed

lemma build_features_cases:
  assumes "build_features R g0 n r = Inr (data, g)"
  obtains ch g2 d1 g3 d2 g4 d3 g5 d4 where
    "0 \<le> n_cheaters_of n r" "n_cheaters_of n r \<le> n"
    "make_cheaters R (nat (n_cheaters_of n r))
       (snd (make_non_cheaters R (nat (n - n_cheaters_of n r)) (rk_seed R 42))) = Inr (ch, g2)"
    "add_subject_variation R (nat n)
       (pd_concat (fst (make_non_cheaters R (nat (n - n_cheaters_of n r)) (rk_seed R 42))) ch) g2
       = (d1, g3)"
    "add_historical_trend R (nat n) (cheater_indices d1) d1 g3 = Inr (d2, g4)"
    "add_exam_time R (nat n) (cheater_indices d1) d2 g4 = (d3, g5)"
    "add_peer_comparison (nat n) d3 = Inr d4"
    "add_score_variance R (nat n) (add_z_scores d4) g5 = (data, g)"
  using assms
  by (auto simp: build_features_def Let_def split: if_splits prod.splits sum.splits)

lemma build_features_props:
  assumes "build_features R g0 n r = Inr (data, g)"
  shows "0 \<le> n_cheaters_of n r"
    and "n_cheaters_of n r \<le> n"
    and "rect (nat n) data"
    and "names data = feature_names (nat n)"
    and "col data ''cheater'' = replicate (nat (n - n_cheaters_of n r)) (Some 0) @
           replicate (nat (n_cheaters_of n r)) (Some 1)"
    and "col data ''coursework_z'' = z_score (col data ''coursework_raw'')"
    and "col data ''exam_z'' = z_score (col data ''exam_raw'')"
    and "col data ''z_diff'' =
           map (\<lambda>(a, b). csub a b) (zip (col data ''coursework_z'') (col data ''exam_z''))"
proof -
  let ?nc = "n_cheaters_of n r"
  let ?a = "fst (make_non_cheaters R (nat (n - ?nc)) (rk_seed R 42))"
  from assms obtain ch g2 d1 g3 d2 g4 d3 g5 d4 where
    nc0: "0 \<le> ?nc" and ncn: "?nc \<le> n"
    and mc: "make_cheaters R (nat ?nc) (snd (make_non_cheaters R (nat (n - ?nc)) (rk_seed R 42)))
              = Inr (ch, g2)"
    and sv: "add_subject_variation R (nat n) (pd_concat ?a ch) g2 = (d1, g3)"
    and ht: "add_historical_trend R (nat n) (cheater_indices d1) d1 g3 = Inr (d2, g4)"
    and et: "add_exam_time R (nat n) (cheater_indices d1) d2 g4 = (d3, g5)"
    and pc: "add_peer_comparison (nat n) d3 = Inr d4"
    and scv: "add_score_variance R (nat n) (add_z_scores d4) g5 = (data, g)"
    by (rule build_features_cases)
  show "0 \<le> ?nc" by (rule nc0)
  show "?nc \<le> n" by (rule ncn)
  have sum: "nat (n - ?nc) + nat ?nc = nat n" using nc0 ncn by simp
  note C = combined_props [OF mc refl, of "nat (n - ?nc)" "rk_seed R 42"]
  note SV = add_subject_variation_props [OF sv]
  note HT = add_historical_trend_props [OF ht]
  note ET = add_exam_time_props [OF et]
  note PC = add_peer_comparison_props [OF pc]
  note Z = add_z_scores_props [where df = d4]
  note SC = add_score_variance_props [OF scv]
  have r0: "rect (nat n) (pd_concat ?a ch)" using C(2) sum by simp
  have n1: "names d1 = base_names @ [''subject_variation'']"
    by (simp add: SV(1) C(1) names_add_def base_names_def)
  have n2: "names d2 = base_names @ [''subject_variation'', ''historical_trend'']"
    by (simp add: HT(1) n1 names_add_def base_names_def)
  have n3: "names d3 = base_names @ [''subject_variation'', ''historical_trend'', ''exam_time_std'']"
    by (simp add: ET(1) n2 names_add_def base_names_def)
  have n4: "names d4 = base_names @ [''subject_variation'', ''historical_trend'', ''exam_time_std'',
     ''peer_comparison'']"
    by (simp add: PC(1) n3 names_add_def base_names_def)
  have n5: "names (add_z_scores d4) = base_names @ [''subject_variation'', ''historical_trend'',
     ''exam_time_std'', ''peer_comparison'', ''coursework_z'', ''exam_z'', ''z_diff'']"
    by (simp add: Z(1) n4 names_add_def base_names_def)
  show "names data = feature_names (nat n)"
    by (simp add: SC(1) n5 names_add_def base_names_def feature_names_def)
  have r1: "rect (nat n) d1" using r0 by (rule SV(2))
  have r2: "rect (nat n) d2" using r1 by (rule HT(2)) (simp add: n1 base_names_def)
  have r3: "rect (nat n) d3" using r2 by (rule ET(2))
  have r4: "rect (nat n) d4" using r3 by (rule PC(2))
  have r5: "rect (nat n) (add_z_scores d4)" using r4 by (rule Z(2)) (simp add: n4 base_names_def)
  show "rect (nat n) data" using r5 by (rule SC(2))
  have "col data ''cheater'' = col (pd_concat ?a ch) ''cheater''"
    by (simp add: SC(3) Z(3) PC(3) ET(3) HT(3) SV(3))
  then show "col data ''cheater'' = replicate (nat (n - ?nc)) (Some 0) @ replicate (nat ?nc) (Some 1)"
    by (simp add: C(3))
  have cw: "col data ''coursework_raw'' = col d4 ''coursework_raw''"
    by (simp add: SC(3) Z(3))
  have ex: "col data ''exam_raw'' = col d4 ''exam_raw''"
    by (simp add: SC(3) Z(3))
  have cz: "col data ''coursework_z'' = col (add_z_scores d4) ''coursework_z''"
    by (simp add: SC(3))
  have ez: "col data ''exam_z'' = col (add_z_scores d4) ''exam_z''"
    by (simp add: SC(3))
  have zd: "col data ''z_diff'' = col (add_z_scores d4) ''z_diff''"
    by (simp add: SC(3))
  show "col data ''coursework_z'' = z_score (col data ''coursework_raw'')"
    unfolding cz cw by (rule Z(4))
  show "col data ''exam_z'' = z_score (col data ''exam_raw'')"
    unfolding ez ex by (rule Z(5))
  show "col data ''z_diff'' =
           map (\<lambda>(a, b). csub a b) (zip (col data ''coursework_z'') (col data ''exam_z''))"
    unfolding cz ez zd by (rule Z(6))
qed

subsection \<open>The returned table\<close>

lemma generate_cases:
  assumes "generate_realistic_cheating_data R iso_forest g0 n r = Inr (tbl, g')"
  obtains data data1 where
    "build_features R g0 n r = Inr (data, g')"
    "add_anomaly_score iso_forest data = Inr data1"
    "tbl = drop_cols data1 [''ability'', ''coursework_raw'', ''exam_raw'']"
  using assms
  by (auto simp: generate_realistic_cheating_data_def split: sum.splits prod.splits)

lemma rect_names: "rect n df \<Longrightarrow> nm \<in> set (names df) \<Longrightarrow> length (col df nm) = n"
  by (rule rect_col)

lemma generate_props:
  assumes gen: "generate_realistic_cheating_data R iso_forest g0 n r = Inr (tbl, g')"
    and bf: "build_features R g0 n r = Inr (data, g)"
  shows "0 < n"
    and "names tbl = output_columns"
    and "rect (nat n) tbl"
    and "nm \<in> set output_columns \<Longrightarrow> nm \<noteq> ''anomaly_score'' \<Longrightarrow> col tbl nm = col data nm"
proof -
  from gen obtain data' data1 where
    bf': "build_features R g0 n r = Inr (data', g')"
    and an: "add_anomaly_score iso_forest data' = Inr data1"
    and tbl: "tbl = drop_cols data1 [''ability'', ''coursework_raw'', ''exam_raw'']"
    by (rule generate_cases)
  have eq: "data' = data" using bf bf' by simp
  note B = build_features_props [OF bf]
  note A = add_anomaly_score_props [OF an [unfolded eq]]
  have "''score_variance'' \<in> set (names data)"
    using A(4) by (auto simp: features_for_anomaly_def)
  then have n0: "nat n \<noteq> 0"
    by (auto simp: B(4) feature_names_def base_names_def split: if_splits)
  then show "0 < n" by simp
  have n1: "names data1 = feature_names (nat n) @ [''anomaly_score'']"
    by (simp add: A(1) B(4) names_add_def feature_names_def base_names_def)
  show nt: "names tbl = output_columns"
    using n0 by (simp add: tbl names_drop_cols n1 feature_names_def base_names_def output_columns_def)
  have r1: "rect (nat n) data1" using B(3) by (rule A(2))
  have "tbl \<noteq> []" using nt by (auto simp: names_def output_columns_def)
  then show "rect (nat n) tbl"
    using r1 by (simp add: rect_def tbl list_all_drop_cols)
  show "col tbl nm = col data nm" if "nm \<in> set output_columns" "nm \<noteq> ''anomaly_score''"
    using that by (auto simp: tbl col_drop_cols A(3) output_columns_def)
qed

subsection \<open>When the generator returns\<close>

lemma counter_rng_ok: "rng_ok counter_rng"
  by (auto simp: rng_ok_def counter_rng_def)

lemma flag_first_ok: "detector_ok flag_first"
  by (simp add: detector_ok_def flag_first_def)

lemma rk_double_lt1: "rng_ok R \<Longrightarrow> fst (rk_double R g) < 1"
  by (simp add: rng_ok_def)

lemma rk_double_ge0: "rng_ok R \<Longrightarrow> 0 \<le> fst (rk_double R g)"
  by (simp add: rng_ok_def)

lemma np_random_sample_lt1:
  "rng_ok R \<Longrightarrow> list_all (\<lambda>u. u < 1) (fst (np_random_sample R n g))"
  by (induction n arbitrary: g) (simp_all add: case_prod_beta rk_double_lt1)

lemma searchsorted_types: "u < 1 \<Longrightarrow> searchsorted_right (cdf_of [0.5, 0.3, 0.2]) u < 3"
  by (simp add: searchsorted_right_def cdf_of_def Let_def)

lemma np_choice_p_succeeds:
  assumes "rng_ok R"
  shows "\<exists>ts h. np_choice_p R cheater_type_names [0.5, 0.3, 0.2] m g = Inr (ts, h)"
proof -
  have l3: "length cheater_type_names = 3" by (simp add: cheater_type_names_def)
  have A: "\<forall>u\<in>set (fst (np_random_sample R m g)). u < 1"
    using np_random_sample_lt1 [OF assms, of m g] by (simp add: list_all_iff)
  have "list_all (\<lambda>i. i < length cheater_type_names)
          (map (searchsorted_right (cdf_of [0.5, 0.3, 0.2])) (fst (np_random_sample R m g)))"
    using A searchsorted_types by (auto simp: list_all_iff l3)
  then show ?thesis
    by (simp add: np_choice_p_def case_prod_beta Let_def)
qed

lemma make_cheaters_succeeds:
  assumes "rng_ok R"
  shows "\<exists>df h. make_cheaters R m g = Inr (df, h)"
proof -
  let ?g2 = "snd (np_normals R 0 0.8 m (snd (np_normals R (- 0.5) 1 m g)))"
  obtain ts h where "np_choice_p R cheater_type_names [0.5, 0.3, 0.2] m ?g2 = Inr (ts, h)"
    using np_choice_p_succeeds [OF assms] by blast
  then show ?thesis
    by (simp add: make_cheaters_def case_prod_beta Let_def)
qed

lemma np_choice_no_replace_succeeds:
  assumes "rng_ok R"
  shows "\<exists>xs h. np_choice_no_replace R a k g = Inr (xs, h)"
proof -
  have "set (fst (rk_permutation R (length a) g)) = {..<length a}"
    using assms by (simp add: rng_ok_def)
  then have "list_all (\<lambda>i. i < length a) (take k (fst (rk_permutation R (length a) g)))"
    by (auto simp: list_all_iff dest: in_set_takeD)
  then show ?thesis
    by (simp add: np_choice_no_replace_def case_prod_beta Let_def)
qed

lemma add_historical_trend_succeeds:
  assumes "rng_ok R"
  shows "\<exists>df' h. add_historical_trend R n ci df g = Inr (df', h)"
proof -
  obtain xs h where
    "np_choice_no_replace R ci (nat (py_int (to_double (real (length ci) * double_0_6)))) (snd (np_normals R 0 0.5 n g))
       = Inr (xs, h)"
    using np_choice_no_replace_succeeds [OF assms] by blast
  then show ?thesis
    by (simp add: add_historical_trend_def case_prod_beta Let_def)
qed

lemma map_of_avg_group_exam: "k < 3 \<Longrightarrow> \<exists>v. map_of (avg_group_exam df groups) k = Some v"
  by (auto simp: avg_group_exam_def map_of_map_key)

lemma peer_loop_succeeds:
  assumes "\<forall>i\<in>set js. i < length groups" "\<forall>k\<in>set groups. k < 3"
  shows "\<exists>df'. peer_loop (avg_group_exam d groups) groups js df = Inr df'"
  using assms
proof (induction js arbitrary: df)
  case Nil
  then show ?case by simp
next
  case (Cons i rest)
  have "groups ! i < 3" using Cons.prems by simp
  then obtain v where "map_of (avg_group_exam d groups) (groups ! i) = Some v"
    using map_of_avg_group_exam by blast
  then show ?case using Cons by simp
qed

lemma add_peer_comparison_succeeds:
  assumes "rect n df" "''ability'' \<in> set (names df)" "0 < n"
  shows "\<exists>df'. add_peer_comparison n df = Inr df'"
proof -
  have la: "length (col df ''ability'') = n" using assms(1,2) by (rule rect_col)
  then have "col df ''ability'' \<noteq> []" using assms(3) by auto
  then obtain groups where g: "ability_groups df = Inr groups"
    using ability_groups_succeeds by blast
  note S = ability_groups_shape [OF g]
  have "\<exists>df'. peer_loop (avg_group_exam df groups) groups [0..<n]
          (set_col df ''peer_comparison'' (replicate (nrows df) (Some 0))) = Inr df'"
    using S by (intro peer_loop_succeeds) (simp_all add: la)
  then show ?thesis
    by (simp add: add_peer_comparison_def g Let_def)
qed

lemma add_peer_comparison_empty:
  "col df ''ability'' = [] \<Longrightarrow> add_peer_comparison n df = Inl IndexError"
  by (simp add: add_peer_comparison_def ability_groups_empty)

lemma build_features_upto_peer:
  assumes ok: "rng_ok R"
    and nc0: "0 \<le> n_cheaters_of n r" and ncn: "n_cheaters_of n r \<le> n"
  obtains d3 g5 where
    "build_features R g0 n r =
       (case add_peer_comparison (nat n) d3 of
          Inl e \<Rightarrow> Inl e
        | Inr d4 \<Rightarrow> Inr (add_score_variance R (nat n) (add_z_scores d4) g5))"
    "rect (nat n) d3" "''ability'' \<in> set (names d3)"
proof -
  let ?nc = "n_cheaters_of n r"
  let ?a = "fst (make_non_cheaters R (nat (n - ?nc)) (rk_seed R 42))"
  let ?g1 = "snd (make_non_cheaters R (nat (n - ?nc)) (rk_seed R 42))"
  obtain ch g2 where mc: "make_cheaters R (nat ?nc) ?g1 = Inr (ch, g2)"
    using make_cheaters_succeeds [OF ok] by blast
  obtain d1 g3 where sv: "add_subject_variation R (nat n) (pd_concat ?a ch) g2 = (d1, g3)"
    by (cases "add_subject_variation R (nat n) (pd_concat ?a ch) g2")
  obtain d2 g4 where ht: "add_historical_trend R (nat n) (cheater_indices d1) d1 g3 = Inr (d2, g4)"
    using add_historical_trend_succeeds [OF ok] by blast
  obtain d3 g5 where et: "add_exam_time R (nat n) (cheater_indices d1) d2 g4 = (d3, g5)"
    by (cases "add_exam_time R (nat n) (cheater_indices d1) d2 g4")
  have sum: "nat (n - ?nc) + nat ?nc = nat n" using nc0 ncn by simp
  note C = combined_props [OF mc refl, of "nat (n - ?nc)" "rk_seed R 42"]
  note SV = add_subject_variation_props [OF sv]
  note HT = add_historical_trend_props [OF ht]
  note ET = add_exam_time_props [OF et]
  have r0: "rect (nat n) (pd_concat ?a ch)" using C(2) sum by simp
  have n1: "names d1 = base_names @ [''subject_variation'']"
    by (simp add: SV(1) C(1) names_add_def base_names_def)
  have n2: "names d2 = base_names @ [''subject_variation'', ''historical_trend'']"
    by (simp add: HT(1) n1 names_add_def base_names_def)
  have n3: "names d3 = base_names @ [''subject_variation'', ''historical_trend'', ''exam_time_std'']"
    by (simp add: ET(1) n2 names_add_def base_names_def)
  have r1: "rect (nat n) d1" using r0 by (rule SV(2))
  have r2: "rect (nat n) d2" using r1 by (rule HT(2)) (simp add: n1 base_names_def)
  have r3: "rect (nat n) d3" using r2 by (rule ET(2))
  have ab: "''ability'' \<in> set (names d3)" by (simp add: n3 base_names_def)
  have "build_features R g0 n r =
       (case add_peer_comparison (nat n) d3 of
          Inl e \<Rightarrow> Inl e
        | Inr d4 \<Rightarrow> Inr (add_score_variance R (nat n) (add_z_scores d4) g5))"
    using nc0 ncn
    by (simp add: build_features_def Let_def case_prod_beta mc sv ht et split: sum.splits)
  then show thesis using r3 ab by (rule that)
qed

lemma build_features_succeeds:
  assumes ok: "rng_ok R" and n0: "0 < n"
    and nc0: "0 \<le> n_cheaters_of n r" and ncn: "n_cheaters_of n r \<le> n"
  shows "\<exists>data g. build_features R g0 n r = Inr (data, g)"
proof -
  obtain d3 g5 where
    bf: "build_features R g0 n r =
       (case add_peer_comparison (nat n) d3 of
          Inl e \<Rightarrow> Inl e
        | Inr d4 \<Rightarrow> Inr (add_score_variance R (nat n) (add_z_scores d4) g5))"
    and r3: "rect (nat n) d3" and ab: "''ability'' \<in> set (names d3)"
    using build_features_upto_peer [OF ok nc0 ncn] by blast
  obtain d4 where pc: "add_peer_comparison (nat n) d3 = Inr d4"
    using add_peer_comparison_succeeds [OF r3 ab] n0 by auto
  obtain data g where "add_score_variance R (nat n) (add_z_scores d4) g5 = (data, g)"
    by (cases "add_score_variance R (nat n) (add_z_scores d4) g5")
  then show ?thesis by (simp add: bf pc)
qed

lemma build_features_no_rows:
  assumes ok: "rng_ok R"
  shows "build_features R g0 0 r = Inl IndexError"
proof -
  have nc: "n_cheaters_of 0 r = 0" by (rule n_cheaters_of_zero)
  obtain d3 g5 where
    bf: "build_features R g0 0 r =
       (case add_peer_comparison (nat 0) d3 of
          Inl e \<Rightarrow> Inl e
        | Inr d4 \<Rightarrow> Inr (add_score_variance R (nat 0) (add_z_scores d4) g5))"
    and r3: "rect (nat 0) d3" and ab: "''ability'' \<in> set (names d3)"
    by (rule build_features_upto_peer [OF ok, of 0 r g0]) (simp_all add: nc)
  have "length (col d3 ''ability'') = nat 0" using r3 ab by (rule rect_col)
  then have "col d3 ''ability'' = []" by simp
  then have "add_peer_comparison (nat 0) d3 = Inl IndexError" by (rule add_peer_comparison_empty)
  then show ?thesis by (simp add: bf)
qed

lemma add_anomaly_score_succeeds:
  assumes "detector_ok iso_forest" "rect n df" "set features_for_anomaly \<subseteq> set (names df)"
  shows "\<exists>df'. add_anomaly_score iso_forest df = Inr df'"
proof -
  let ?X = "map (col df) features_for_anomaly"
  have sel: "select_cols df features_for_anomaly = Inr ?X"
    using assms(3) by (auto simp: select_cols_def list_all_iff)
  have len: "list_all (\<lambda>c. length c = n) ?X"
    using assms(2,3) by (auto simp: list_all_iff rect_col)
  have ne: "?X \<noteq> []" by (simp add: features_for_anomaly_def)
  have hd: "length (hd ?X) = n"
    using len ne by (cases ?X) simp_all
  have "list_all (\<lambda>c. length c = length (hd ?X)) ?X" using len hd by simp
  with assms(1) ne obtain ls where ls: "iso_forest ?X = Inr ls" "length ls = length (hd ?X)"
    unfolding detector_ok_def by blast
  have "length ls = nrows df" using ls(2) hd rect_nrows [OF assms(2)] by simp
  then show ?thesis
    by (simp add: add_anomaly_score_def sel ls(1) Let_def)
qed

lemma generate_succeeds:
  assumes ok: "rng_ok R" and det: "detector_ok iso_forest" and n0: "0 < n"
    and nc0: "0 \<le> n_cheaters_of n r" and ncn: "n_cheaters_of n r \<le> n"
  shows "\<exists>tbl g. generate_realistic_cheating_data R iso_forest g0 n r = Inr (tbl, g)"
proof -
  obtain data g where bf: "build_features R g0 n r = Inr (data, g)"
    using build_features_succeeds [OF ok n0 nc0 ncn] by blast
  note B = build_features_props [OF bf]
  have "set features_for_anomaly \<subseteq> set (names data)"
    using n0 by (simp add: B(4) feature_names_def features_for_anomaly_def base_names_def)
  with det B(3) obtain data1 where "add_anomaly_score iso_forest data = Inr data1"
    using add_anomaly_score_succeeds by blast
  then show ?thesis
    by (simp add: generate_realistic_cheating_data_def bf)
qed

lemma generate_table_props:
  assumes gen: "generate_realistic_cheating_data R iso_forest g0 n r = Inr (tbl, g')"
  shows "0 < n"
    and "0 \<le> n_cheaters_of n r"
    and "n_cheaters_of n r \<le> n"
    and "names tbl = output_columns"
    and "rect (nat n) tbl"
    and "col tbl ''cheater'' = replicate (nat (n - n_cheaters_of n r)) (Some 0) @
           replicate (nat (n_cheaters_of n r)) (Some 1)"
    and "col tbl ''z_diff'' =
           map (\<lambda>(a, b). csub a b) (zip (col tbl ''coursework_z'') (col tbl ''exam_z''))"
proof -
  from gen obtain data where bf: "build_features R g0 n r = Inr (data, g')"
    by (rule generate_cases)
  note B = build_features_props [OF bf]
  note G = generate_props [OF gen bf]
  show "0 < n" by (rule G(1))
  show "0 \<le> n_cheaters_of n r" by (rule B(1))
  show "n_cheaters_of n r \<le> n" by (rule B(2))
  show "names tbl = output_columns" by (rule G(2))
  show "rect (nat n) tbl" by (rule G(3))
  have c: "col tbl ''cheater'' = col data ''cheater''"
    by (rule G(4)) (simp_all add: output_columns_def)
  show "col tbl ''cheater'' = replicate (nat (n - n_cheaters_of n r)) (Some 0) @
           replicate (nat (n_cheaters_of n r)) (Some 1)"
    unfolding c by (rule B(5))
  have z: "col tbl ''z_diff'' = col data ''z_diff''"
    "col tbl ''coursework_z'' = col data ''coursework_z''"
    "col tbl ''exam_z'' = col data ''exam_z''"
    by (rule G(4); simp add: output_columns_def)+
  show "col tbl ''z_diff'' =
           map (\<lambda>(a, b). csub a b) (zip (col tbl ''coursework_z'') (col tbl ''exam_z''))"
    unfolding z by (rule B(8))
qed

lemma count_label_grouped:
  "col tbl ''cheater'' = replicate a (Some 0) @ replicate b (Some 1) \<Longrightarrow>
   count_label 1 tbl = b \<and> count_label 0 tbl = a"
  by (simp add: count_label_def)

lemma generate_negative_dimensions:
  "n_cheaters_of n r < 0 \<or> n < n_cheaters_of n r \<Longrightarrow>
   generate_realistic_cheating_data R iso_forest g0 n r = Inl NegativeDimensions"
  by (auto simp: generate_realistic_cheating_data_def build_features_def Let_def case_prod_beta)

lemma generate_no_rows:
  assumes ok: "rng_ok R"
  shows "generate_realistic_cheating_data R iso_forest g0 0 r = Inl IndexError"
  by (simp add: generate_realistic_cheating_data_def build_features_no_rows [OF ok])

lemma make_cheaters_zero:
  "make_cheaters R 0 g =
     Inr ([(''ability'', []), (''cheater'', []), (''coursework_raw'', [])], g)"
  by (simp add: make_cheaters_def np_choice_p_def col_plus_def col_def)

lemma pd_concat_no_cheaters:
  "pd_concat (fst (make_non_cheaters R m g))
     [(''ability'', []), (''cheater'', []), (''coursework_raw'', [])] =
   fst (make_non_cheaters R m g)"
  by (simp add: pd_concat_def make_non_cheaters_def Let_def case_prod_beta names_def
        col_or_nan_def nrows_def)

lemma cheater_indices_none:
  assumes "col df ''cheater'' = replicate n (Some 0)"
  shows "cheater_indices df = []"
  by (auto simp: cheater_indices_def cell_at_def assms filter_empty_conv)

lemma add_historical_trend_nil:
  "add_historical_trend R n [] df g = Inr (historical_trend_honest R n df g)"
  by (simp add: add_historical_trend_def historical_trend_honest_def np_choice_no_replace_def
        case_prod_beta Let_def py_int_def to_double_zero)

lemma add_exam_time_nil: "add_exam_time R n [] df g = exam_time_honest R n df g"
  by (simp add: add_exam_time_def exam_time_honest_def)

lemma build_features_no_cheaters:
  assumes nc: "n_cheaters_of n r = 0" and n0: "0 \<le> n"
  shows "build_features R g0 n r = build_features_honest R (nat n)"
proof -
  let ?a = "fst (make_non_cheaters R (nat n) (rk_seed R 42))"
  let ?g1 = "snd (make_non_cheaters R (nat n) (rk_seed R 42))"
  obtain d1 g2 where sv: "add_subject_variation R (nat n) ?a ?g1 = (d1, g2)"
    by (cases "add_subject_variation R (nat n) ?a ?g1")
  have "col d1 ''cheater'' = replicate (nat n) (Some 0)"
    by (simp add: add_subject_variation_props(3) [OF sv] make_non_cheaters_cheater)
  then have ci: "cheater_indices d1 = []" by (rule cheater_indices_none)
  show ?thesis
    using n0
    by (simp add: build_features_def build_features_honest_def Let_def case_prod_beta nc
          make_cheaters_zero pd_concat_no_cheaters sv ci add_historical_trend_nil add_exam_time_nil
        split: sum.splits)
qed

lemma pd_mean_finite: "Some x \<in> set c \<Longrightarrow> pd_mean c \<noteq> None"
proof -
  assume "Some x \<in> set c"
  then have "filter (\<lambda>v. v \<noteq> None) c \<noteq> []" by (auto simp: filter_empty_conv)
  then show ?thesis by (simp add: pd_mean_def finite_vals_def Let_def)
qed

lemma avg_group_finite:
  assumes "i < length groups" "length groups = length (col df ''exam_raw'')"
    and "col df ''exam_raw'' ! i = Some x" "groups ! i < 3"
    and "map_of (avg_group_exam df groups) (groups ! i) = Some v"
  shows "v \<noteq> None"
proof -
  let ?c = "map snd (filter (\<lambda>ge. fst ge = groups ! i) (zip groups (col df ''exam_raw'')))"
  have v: "v = pd_mean ?c"
    using assms(4,5) by (auto simp: avg_group_exam_def map_of_map_key)
  have "(groups ! i, Some x) \<in> set (zip groups (col df ''exam_raw''))"
    using assms(1,2,3) by (auto simp: in_set_zip intro!: exI [of _ i])
  then have "Some x \<in> set ?c" by force
  then show ?thesis unfolding v by (rule pd_mean_finite)
qed

lemma csub_Some: "a \<noteq> None \<Longrightarrow> b \<noteq> None \<Longrightarrow> csub a b \<noteq> None"
  by (auto simp: csub_def)

lemma peer_loop_finite:
  assumes "peer_loop avg groups js df = Inr df'"
    and "rect n df" and "''peer_comparison'' \<in> set (names df)"
    and "\<forall>i\<in>set js. i < n \<and> cell_at df i ''exam_raw'' \<noteq> None \<and>
           (\<forall>v. map_of avg (groups ! i) = Some v \<longrightarrow> v \<noteq> None)"
  shows "\<forall>k. k \<in> set js \<or> cell_at df k ''peer_comparison'' \<noteq> None \<longrightarrow>
             cell_at df' k ''peer_comparison'' \<noteq> None"
  using assms
proof (induction js arbitrary: df)
  case Nil
  then show ?case by simp
next
  case (Cons i rest)
  from Cons.prems(1) obtain v where
    v: "map_of avg (groups ! i) = Some v"
    and rest: "peer_loop avg groups rest
                 (set_cell df i ''peer_comparison'' (csub (cell_at df i ''exam_raw'') v)) = Inr df'"
    by (auto split: if_splits option.splits)
  let ?w = "csub (cell_at df i ''exam_raw'') v"
  let ?df1 = "set_cell df i ''peer_comparison'' ?w"
  have i: "i < n" "cell_at df i ''exam_raw'' \<noteq> None" "v \<noteq> None"
    using Cons.prems(4) v by auto
  have w: "?w \<noteq> None" using i(2,3) by (rule csub_Some)
  have r1: "rect n ?df1" using Cons.prems(2) by (rule rect_set_cell)
  have n1: "''peer_comparison'' \<in> set (names ?df1)"
    by (simp add: names_set_cell set_names_add)
  have ex: "cell_at ?df1 k ''exam_raw'' = cell_at df k ''exam_raw''" for k
    by (simp add: cell_at_set_cell_other)
  have pc: "cell_at ?df1 k ''peer_comparison'' = (if k = i then ?w else cell_at df k ''peer_comparison'')" for k
    using Cons.prems(2) i(1) by (rule cell_at_set_cell_same)
  have "\<forall>k\<in>set rest. k < n \<and> cell_at ?df1 k ''exam_raw'' \<noteq> None \<and>
           (\<forall>v. map_of avg (groups ! k) = Some v \<longrightarrow> v \<noteq> None)"
    using Cons.prems(4) by (simp add: ex)
  from Cons.IH [OF rest r1 n1 this]
  have IH: "\<forall>k. k \<in> set rest \<or> cell_at ?df1 k ''peer_comparison'' \<noteq> None \<longrightarrow>
             cell_at df' k ''peer_comparison'' \<noteq> None" .
  show ?case
  proof (intro allI impI)
    fix k assume "k \<in> set (i # rest) \<or> cell_at df k ''peer_comparison'' \<noteq> None"
    then have "k \<in> set rest \<or> cell_at ?df1 k ''peer_comparison'' \<noteq> None"
      using w by (auto simp: pc)
    then show "cell_at df' k ''peer_comparison'' \<noteq> None" using IH by blast
  qed
qed

lemma cells_finite_col:
  assumes "length (col df nm) = n" "None \<notin> set (col df nm)" "i < n"
  shows "cell_at df i nm \<noteq> None"
  using assms by (auto simp: cell_at_def in_set_conv_nth)

lemma add_peer_comparison_finite:
  assumes pc: "add_peer_comparison n df = Inr df'"
    and r: "rect n df" and ab: "''ability'' \<in> set (names df)"
    and ex: "''exam_raw'' \<in> set (names df)" and fin: "None \<notin> set (col df ''exam_raw'')"
  shows "None \<notin> set (col df' ''peer_comparison'')"
proof -
  let ?df0 = "set_col df ''peer_comparison'' (replicate (nrows df) (Some 0))"
  from pc obtain groups where ag: "ability_groups df = Inr groups"
    and loop0: "peer_loop (avg_group_exam df groups) groups [0..<n] ?df0 = Inr df'"
    by (rule add_peer_comparison_cases)
  let ?groups = "groups"
  let ?avg = "avg_group_exam df ?groups"
  have loop: "peer_loop ?avg ?groups [0..<n] ?df0 = Inr df'" by (rule loop0)
  note S = ability_groups_shape [OF ag]
  have len: "length ?groups = n" using rect_col [OF r ab] S(1) by simp
  have lex: "length (col df ''exam_raw'') = n" using r ex by (rule rect_col)
  have g3: "?groups ! i < 3" if "i < n" for i
    using that len S(2) by simp
  have r0: "rect n ?df0" using r by (simp add: rect_set_col rect_nrows)
  have n0: "''peer_comparison'' \<in> set (names ?df0)" by (simp add: names_set_col set_names_add)
  have ex0: "cell_at ?df0 i ''exam_raw'' = cell_at df i ''exam_raw''" for i
    by (simp add: cell_at_def col_set_col)
  have cond: "\<forall>i\<in>set [0..<n]. i < n \<and> cell_at ?df0 i ''exam_raw'' \<noteq> None \<and>
           (\<forall>v. map_of ?avg (?groups ! i) = Some v \<longrightarrow> v \<noteq> None)"
  proof (intro ballI conjI allI impI)
    fix i assume "i \<in> set [0..<n]"
    then show i: "i < n" by simp
    show c: "cell_at ?df0 i ''exam_raw'' \<noteq> None"
      unfolding ex0 using lex fin i by (rule cells_finite_col)
    fix v assume v: "map_of ?avg (?groups ! i) = Some v"
    have "cell_at df i ''exam_raw'' \<noteq> None" using c unfolding ex0 .
    then obtain x where x: "col df ''exam_raw'' ! i = Some x"
      using i lex by (auto simp: cell_at_def)
    show "v \<noteq> None"
      using _ _ x g3 [OF i] v by (rule avg_group_finite) (simp_all add: len lex i)
  qed
  note F = peer_loop_finite [OF loop r0 n0 cond]
  note P = add_peer_comparison_props [OF pc]
  have r': "rect n df'" using r by (rule P(2))
  have "''peer_comparison'' \<in> set (names df')" by (simp add: P(1) set_names_add)
  with r' show ?thesis
  proof (rule cells_finite)
    show "\<forall>j<n. cell_at df' j ''peer_comparison'' \<noteq> None" using F by simp
  qed
qed

lemma build_features_peer_finite:
  assumes "build_features R g0 n r = Inr (data, g)"
  shows "None \<notin> set (col data ''peer_comparison'')"
proof -
  let ?nc = "n_cheaters_of n r"
  let ?a = "fst (make_non_cheaters R (nat (n - ?nc)) (rk_seed R 42))"
  from assms obtain ch g2 d1 g3 d2 g4 d3 g5 d4 where
    nc0: "0 \<le> ?nc" and ncn: "?nc \<le> n"
    and mc: "make_cheaters R (nat ?nc) (snd (make_non_cheaters R (nat (n - ?nc)) (rk_seed R 42)))
              = Inr (ch, g2)"
    and sv: "add_subject_variation R (nat n) (pd_concat ?a ch) g2 = (d1, g3)"
    and ht: "add_historical_trend R (nat n) (cheater_indices d1) d1 g3 = Inr (d2, g4)"
    and et: "add_exam_time R (nat n) (cheater_indices d1) d2 g4 = (d3, g5)"
    and pc: "add_peer_comparison (nat n) d3 = Inr d4"
    and scv: "add_score_variance R (nat n) (add_z_scores d4) g5 = (data, g)"
    by (rule build_features_cases)
  have sum: "nat (n - ?nc) + nat ?nc = nat n" using nc0 ncn by simp
  note C = combined_props [OF mc refl, of "nat (n - ?nc)" "rk_seed R 42"]
  note SV = add_subject_variation_props [OF sv]
  note HT = add_historical_trend_props [OF ht]
  note ET = add_exam_time_props [OF et]
  note Z = add_z_scores_props [where df = d4]
  note SC = add_score_variance_props [OF scv]
  have r0: "rect (nat n) (pd_concat ?a ch)" using C(2) sum by simp
  have n1: "names d1 = base_names @ [''subject_variation'']"
    by (simp add: SV(1) C(1) names_add_def base_names_def)
  have n2: "names d2 = base_names @ [''subject_variation'', ''historical_trend'']"
    by (simp add: HT(1) n1 names_add_def base_names_def)
  have n3: "names d3 = base_names @ [''subject_variation'', ''historical_trend'', ''exam_time_std'']"
    by (simp add: ET(1) n2 names_add_def base_names_def)
  have r1: "rect (nat n) d1" using r0 by (rule SV(2))
  have r2: "rect (nat n) d2" using r1 by (rule HT(2)) (simp add: n1 base_names_def)
  have r3: "rect (nat n) d3" using r2 by (rule ET(2))
  have ab: "''ability'' \<in> set (names d3)" and ex: "''exam_raw'' \<in> set (names d3)"
    by (simp_all add: n3 base_names_def)
  have "col d3 ''exam_raw'' = col (pd_concat ?a ch) ''exam_raw''"
    by (simp add: ET(3) HT(3) SV(3))
  then have fin: "None \<notin> set (col d3 ''exam_raw'')" using C(5) by simp
  have "None \<notin> set (col d4 ''peer_comparison'')"
    using pc r3 ab ex fin by (rule add_peer_comparison_finite)
  moreover have "col data ''peer_comparison'' = col d4 ''peer_comparison''"
    by (simp add: SC(3) Z(3))
  ultimately show ?thesis by simp
qed

lemma ability_groups_labels:
  "ability_groups (set_col df ''cheater'' labels) = ability_groups df"
  by (simp add: ability_groups_def col_set_col split: sum.splits)

subsection \<open>Line 43 at some inputs\<close>

lemma to_double_examples:
  "to_double (7 / 4) = 7 / 4"
  "to_double (- (1 / 2)) = - (1 / 2)"
  "to_double (17 / 2) = 17 / 2"
  "to_double (- (5 / 8)) = - (5 / 8)"
  "to_double 3 = 3"
  "to_double 12 = 12"
proof -
  show "to_double (7 / 4) = 7 / 4"
    by (rule to_double_dyadic [of _ 7 "- 2"]) (simp_all add: powr_minus_divide)
  show "to_double (- (1 / 2)) = - (1 / 2)"
    by (rule to_double_dyadic [of _ "- 1" "- 1"]) (simp_all add: powr_minus_divide)
  show "to_double (17 / 2) = 17 / 2"
    by (rule to_double_dyadic [of _ 17 "- 1"]) (simp_all add: powr_minus_divide)
  show "to_double (- (5 / 8)) = - (5 / 8)"
    by (rule to_double_dyadic [of _ "- 5" "- 3"]) (simp_all add: powr_minus_divide)
  show "to_double 3 = 3" using to_double_of_int [of 3] by simp
  show "to_double 12 = 12" using to_double_of_int [of 12] by simp
qed

lemma n_cheaters_of_examples:
  "n_cheaters_of 7 (1 / 4) = 1"
  "n_cheaters_of 8 (3 / 8) = 3"
  "n_cheaters_of 8 (- 1 / 16) = 0"
  "n_cheaters_of 8 (17 / 16) = 8"
  "n_cheaters_of 8 (3 / 2) = 12"
  "n_cheaters_of (- 5) (1 / 8) = 0"
  by (simp_all add: n_cheaters_of_small to_double_examples py_int_def ceiling_def)

text \<open>Where the rounding of the product matters: 0.6 and 0.15 are the doubles
  \<open>5404319552844595 / 2^53\<close> and \<open>5404319552844595 / 2^55\<close>; the exact products with 5
  and with 1000 lie below 3 and below 150, the doubles are 3 and 150.\<close>

lemma n_cheaters_of_rounded_5:
  "n_cheaters_of 5 (5404319552844595 / 2 ^ 53) = 3"
proof -
  let ?x = "real_of_int 5 * (5404319552844595 / 2 ^ 53)"
  have "to_double ?x =
     real_of_int (round_half_even (?x / 2 powr real_of_int (1 - 52))) * 2 powr real_of_int (1 - 52)"
    by (rule to_double_by_exponent) simp_all
  also have "\<dots> = 3"
    by (simp add: powr_minus_divide round_half_even_def frac_def)
  finally show ?thesis by (simp add: n_cheaters_of_small py_int_def)
qed

lemma n_cheaters_of_rounded_1000:
  "n_cheaters_of 1000 (5404319552844595 / 2 ^ 55) = 150"
proof -
  let ?x = "real_of_int 1000 * (5404319552844595 / 2 ^ 55)"
  have "to_double ?x =
     real_of_int (round_half_even (?x / 2 powr real_of_int (7 - 52))) * 2 powr real_of_int (7 - 52)"
    by (rule to_double_by_exponent) simp_all
  also have "\<dots> = 150"
    by (simp add: powr_minus_divide round_half_even_def frac_def)
  finally show ?thesis by (simp add: n_cheaters_of_small py_int_def)
qed

lemma sum_list_shift: "sum_list (map (\<lambda>x. x - m) xs) = sum_list xs - real (length xs) * m"
  for m :: real
  by (induction xs) (simp_all add: algebra_simps)

lemma sum_list_scale: "sum_list (map (\<lambda>x. f x / s) xs) = sum_list (map f xs) / s"
  for s :: real
  by (induction xs) (simp_all add: add_divide_distrib)

lemma sq_dev_nonneg: "0 \<le> sq_dev xs"
  by (auto simp: sq_dev_def intro!: sum_list_nonneg)

lemma mean_standardised:
  assumes "xs \<noteq> []"
  shows "mean (map (\<lambda>x. (x - mean xs) / s) xs) = 0"
proof -
  have "sum_list (map (\<lambda>x. (x - mean xs) / s) xs) = (sum_list xs - real (length xs) * mean xs) / s"
    by (simp add: sum_list_scale sum_list_shift)
  also have "real (length xs) * mean xs = sum_list xs"
    using assms by (simp add: mean_def)
  finally show ?thesis by (simp add: mean_def)
qed

lemma sq_dev_standardised:
  assumes "xs \<noteq> []"
  shows "sq_dev (map (\<lambda>x. (x - mean xs) / s) xs) = sq_dev xs / s\<^sup>2"
proof -
  have "sq_dev (map (\<lambda>x. (x - mean xs) / s) xs) =
        sum_list (map (\<lambda>x. (x - mean xs)\<^sup>2 / s\<^sup>2) xs)"
    by (simp add: sq_dev_def mean_standardised [OF assms] comp_def power_divide)
  also have "\<dots> = sq_dev xs / s\<^sup>2"
    by (simp add: sum_list_scale sq_dev_def)
  finally show ?thesis .
qed

lemma finite_vals_z_score:
  assumes "pd_mean c = Some m" "s \<noteq> 0"
  shows "finite_vals (map (\<lambda>x. cdiv (csub x (Some m)) (Some s)) c) =
         map (\<lambda>x. (x - m) / s) (finite_vals c)"
  using assms(2)
  by (induction c) (auto simp: finite_vals_def cdiv_def csub_def split: option.splits)

lemma z_score_standardised:
  assumes s: "pd_std c = Some s" and s0: "s \<noteq> 0"
  shows "pd_mean (z_score c) = Some 0" and "pd_std (z_score c) = Some 1"
    and "z_score c = map (\<lambda>x. cdiv (csub x (pd_mean c)) (Some s)) c"
proof -
  let ?xs = "finite_vals c"
  have len: "2 \<le> length ?xs" and sv: "s = sqrt (sq_dev ?xs / real (length ?xs - 1))"
    using s by (auto simp: pd_std_def Let_def split: if_splits)
  have ne: "?xs \<noteq> []" using len by auto
  have m: "pd_mean c = Some (mean ?xs)" using ne by (simp add: pd_mean_def Let_def)
  show z: "z_score c = map (\<lambda>x. cdiv (csub x (pd_mean c)) (Some s)) c"
    by (simp add: z_score_def Let_def s)
  have fv: "finite_vals (z_score c) = map (\<lambda>x. (x - mean ?xs) / s) ?xs"
    unfolding z m using m s0 by (rule finite_vals_z_score)
  have ne': "finite_vals (z_score c) \<noteq> []" using ne by (simp add: fv)
  show "pd_mean (z_score c) = Some 0"
    using ne' by (simp add: pd_mean_def Let_def) (simp add: fv mean_standardised [OF ne])
  have s2: "s\<^sup>2 = sq_dev ?xs / real (length ?xs - 1)"
    unfolding sv using sq_dev_nonneg [of ?xs] by simp
  have q: "real (length ?xs - 1) \<noteq> 0" using len by simp
  have sd: "sq_dev ?xs = s\<^sup>2 * real (length ?xs - 1)" using s2 q by (simp add: field_simps)
  have "sq_dev ?xs / s\<^sup>2 / real (length ?xs - 1) = 1"
    unfolding sd using s0 q by simp
  then have "sq_dev (finite_vals (z_score c)) / real (length ?xs - 1) = 1"
    unfolding fv sq_dev_standardised [OF ne] .
  moreover have "length (finite_vals (z_score c)) = length ?xs" by (simp add: fv)
  ultimately show "pd_std (z_score c) = Some 1"
    using len by (simp add: pd_std_def Let_def)
qed

lemma build_features_raw_no_cheaters:
  assumes bf: "build_features R g0 n r = Inr (data, g)" and nc: "n_cheaters_of n r = 0"
    and nm: "nm \<in> set base_names"
  shows "col data nm = col (fst (make_non_cheaters R (nat n) (rk_seed R 42))) nm"
proof -
  let ?nc = "n_cheaters_of n r"
  let ?a = "fst (make_non_cheaters R (nat (n - ?nc)) (rk_seed R 42))"
  from bf obtain ch g2 d1 g3 d2 g4 d3 g5 d4 where
    mc: "make_cheaters R (nat ?nc) (snd (make_non_cheaters R (nat (n - ?nc)) (rk_seed R 42)))
              = Inr (ch, g2)"
    and sv: "add_subject_variation R (nat n) (pd_concat ?a ch) g2 = (d1, g3)"
    and ht: "add_historical_trend R (nat n) (cheater_indices d1) d1 g3 = Inr (d2, g4)"
    and et: "add_exam_time R (nat n) (cheater_indices d1) d2 g4 = (d3, g5)"
    and pc: "add_peer_comparison (nat n) d3 = Inr d4"
    and scv: "add_score_variance R (nat n) (add_z_scores d4) g5 = (data, g)"
    by (rule build_features_cases)
  have ch: "ch = [(''ability'', []), (''cheater'', []), (''coursework_raw'', [])]"
    using mc by (simp add: nc make_cheaters_zero)
  have d0: "pd_concat ?a ch = fst (make_non_cheaters R (nat n) (rk_seed R 42))"
    by (simp add: ch nc pd_concat_no_cheaters)
  have "col data nm = col (pd_concat ?a ch) nm"
    using nm
    by (auto simp: base_names_def add_score_variance_props(3) [OF scv] add_z_scores_props(3)
          add_peer_comparison_props(3) [OF pc] add_exam_time_props(3) [OF et]
          add_historical_trend_props(3) [OF ht] add_subject_variation_props(3) [OF sv])
  then show ?thesis by (simp only: d0)
qed

lemma counter_rng_honest_raw:
  "col (fst (make_non_cheaters counter_rng 2 (rk_seed counter_rng 42))) ''coursework_raw'' =
     [Some (- (19 / 5)), Some (- 2)]"
  "col (fst (make_non_cheaters counter_rng 2 (rk_seed counter_rng 42))) ''exam_raw'' =
     [Some (- (11 / 5)), Some (- (2 / 5))]"
  by (simp_all add: make_non_cheaters_def counter_rng_def numeral_2_eq_2 np_normal_def
        col_plus_def cadd_def col_def Let_def)

lemma sqrt_81_50: "sqrt (81 / 50) \<noteq> 9 / 10" "sqrt (81 / 50) \<noteq> 0" "sqrt (81 / 100) = 9 / 10"
proof -
  show 3: "sqrt (81 / 100) = 9 / 10" by (rule real_sqrt_unique) (simp_all add: power2_eq_square)
  have "sqrt (81 / 50) \<noteq> sqrt (81 / 100)" by (simp only: real_sqrt_eq_iff)
  then show "sqrt (81 / 50) \<noteq> 9 / 10" unfolding 3 .
  show "sqrt (81 / 50) \<noteq> 0" by simp
qed

lemma raw_example:
  "pd_mean [Some (- (19 / 5)), Some (- 2)] = Some (- (29 / 10))"
  "pd_std [Some (- (19 / 5)), Some (- 2)] = Some (sqrt (81 / 50))"
  "np_std [Some (- (19 / 5)), Some (- 2)] = Some (9 / 10)"
  by (simp_all add: pd_mean_def pd_std_def np_std_def finite_vals_def mean_def
        sq_dev_def Let_def power2_eq_square sqrt_81_50)

lemma exam_example:
  "pd_std [Some (- (11 / 5)), Some (- (2 / 5))] = Some (sqrt (81 / 50))"
  by (simp add: pd_std_def finite_vals_def mean_def sq_dev_def Let_def power2_eq_square)

lemma z_raw_example:
  "z_score [Some (- (19 / 5)), Some (- 2)] =
     [Some (- (9 / (10 * sqrt (81 / 50)))), Some (9 / (10 * sqrt (81 / 50)))]"
  by (simp add: z_score_def raw_example Let_def cdiv_def csub_def sqrt_81_50)

lemma counter_rng_run:
  obtains tbl g data where
    "generate_realistic_cheating_data counter_rng flag_first 0 2 0 = Inr (tbl, g)"
    "build_features counter_rng 0 2 0 = Inr (data, g)"
    "col data ''coursework_raw'' = [Some (- (19 / 5)), Some (- 2)]"
    "col data ''exam_raw'' = [Some (- (11 / 5)), Some (- (2 / 5))]"
proof -
  have nc: "n_cheaters_of 2 0 = 0" by (rule n_cheaters_of_ratio_zero)
  have "\<exists>tbl g. generate_realistic_cheating_data counter_rng flag_first 0 2 0 = Inr (tbl, g)"
    by (rule generate_succeeds [OF counter_rng_ok flag_first_ok]) (simp_all add: nc)
  then obtain tbl g where
    gen: "generate_realistic_cheating_data counter_rng flag_first 0 2 0 = Inr (tbl, g)"
    by blast
  from gen obtain data where bf: "build_features counter_rng 0 2 0 = Inr (data, g)"
    by (rule generate_cases)
  have "col data ''coursework_raw'' = [Some (- (19 / 5)), Some (- 2)]"
    "col data ''exam_raw'' = [Some (- (11 / 5)), Some (- (2 / 5))]"
    using build_features_raw_no_cheaters [OF bf nc] counter_rng_honest_raw
    by (simp_all add: base_names_def)
  with gen bf show thesis by (rule that)
qed








section \<open>The claims\<close>

text \<open>
  Claim C1. Two runs of the generator with the same \<open>n_samples\<close> and \<open>cheater_ratio\<close>
  return the same table (and leave the same generator state), whatever state numpy's
  global generator was in when each run started, in particular the state an earlier run
  left behind: line 40 reseeds the generator with the constant 42, every draw comes from
  that stream, and the detector is a function of the feature columns. The seed is the
  constant of line 40, not a parameter.
\<close>

theorem generator_deterministic:
  "generate_realistic_cheating_data R iso_forest g0 n_samples cheater_ratio =
   generate_realistic_cheating_data R iso_forest g1 n_samples cheater_ratio"
  by (simp add: generate_realistic_cheating_data_def build_features_def)

text \<open>
  Claim C2, as stated: the returned table has exactly \<open>round (n_samples * cheater_ratio)\<close>
  rows with \<open>cheater = 1\<close>. Line 43 truncates instead: for \<open>n_samples = 7\<close> and
  \<open>cheater_ratio = 1/4\<close> the product is the double 1.75, the table has one cheater, and
  rounding gives two.
\<close>

theorem cheater_count_not_rounded:
  "map_option (count_label 1)
     (returned (generate_realistic_cheating_data counter_rng flag_first 0 7 (1 / 4))) = Some 1 \<and>
   round (to_double (real_of_int 7 * (1 / 4))) = (2 :: int)"
proof -
  have nc: "n_cheaters_of 7 (1 / 4) = 1" by (rule n_cheaters_of_examples)
  obtain tbl g where
    gen: "generate_realistic_cheating_data counter_rng flag_first 0 7 (1 / 4) = Inr (tbl, g)"
    using generate_succeeds [OF counter_rng_ok flag_first_ok, of 7 "1 / 4" 0] nc by auto
  have "col tbl ''cheater'' = replicate 6 (Some 0) @ replicate 1 (Some 1)"
    using generate_table_props(6) [OF gen] nc by simp
  then have "count_label 1 tbl = 1" by (simp add: count_label_def)
  moreover have "round (to_double (real_of_int 7 * (1 / 4))) = (2 :: int)"
    by (simp add: to_double_examples round_def)
  ultimately show ?thesis by (simp add: returned_def gen)
qed

text \<open>
  Claim C2, amended: whenever the generator returns a table, exactly
  \<open>int (n_samples * cheater_ratio)\<close> of its \<open>n_samples\<close> rows (line 43: the product of
  the two doubles, truncated towards zero) have \<open>cheater = 1\<close>, and all the remaining rows
  have \<open>cheater = 0\<close>.
\<close>

theorem cheater_count_truncated:
  assumes "generate_realistic_cheating_data R iso_forest g0 n_samples cheater_ratio = Inr (tbl, g)"
  shows "count_label 1 tbl = nat (n_cheaters_of n_samples cheater_ratio) \<and>
         count_label 0 tbl = nat n_samples - nat (n_cheaters_of n_samples cheater_ratio) \<and>
         length (col tbl ''cheater'') = nat n_samples"
proof -
  note G = generate_table_props [OF assms]
  have "nat (n_samples - n_cheaters_of n_samples cheater_ratio) =
        nat n_samples - nat (n_cheaters_of n_samples cheater_ratio)"
    using G(2,3) by simp
  moreover have "length (col tbl ''cheater'') = nat n_samples"
    using G(2,3) by (simp add: G(6))
  ultimately show ?thesis
    using count_label_grouped [OF G(6)] by simp
qed

theorem cheater_count_truncated_witness:
  "\<exists>tbl g. generate_realistic_cheating_data counter_rng flag_first 0 7 (1 / 4) = Inr (tbl, g) \<and>
     count_label 1 tbl = 1 \<and> count_label 0 tbl = 6 \<and> length (col tbl ''cheater'') = 7"
proof -
  have nc: "n_cheaters_of 7 (1 / 4) = 1" by (rule n_cheaters_of_examples)
  obtain tbl g where
    gen: "generate_realistic_cheating_data counter_rng flag_first 0 7 (1 / 4) = Inr (tbl, g)"
    using generate_succeeds [OF counter_rng_ok flag_first_ok, of 7 "1 / 4" 0] nc by auto
  show ?thesis
    using cheater_count_truncated [OF gen] gen nc by simp
qed

text \<open>
  Claim C3. A returned table has exactly \<open>n_samples\<close> rows and exactly the ten columns
  \<^verbatim>\<open>cheater\<close>, \<^verbatim>\<open>subject_variation\<close>, \<^verbatim>\<open>historical_trend\<close>, \<^verbatim>\<open>exam_time_std\<close>,
  \<^verbatim>\<open>peer_comparison\<close>, \<^verbatim>\<open>coursework_z\<close>, \<^verbatim>\<open>exam_z\<close>, \<^verbatim>\<open>z_diff\<close>, \<^verbatim>\<open>score_variance\<close>,
  \<^verbatim>\<open>anomaly_score\<close>, in this order; \<^verbatim>\<open>ability\<close>, \<^verbatim>\<open>coursework_raw\<close> and \<^verbatim>\<open>exam_raw\<close> are
  not among them.
\<close>

theorem output_shape:
  assumes "generate_realistic_cheating_data R iso_forest g0 n_samples cheater_ratio = Inr (tbl, g)"
  shows "names tbl = [''cheater'', ''subject_variation'', ''historical_trend'', ''exam_time_std'',
           ''peer_comparison'', ''coursework_z'', ''exam_z'', ''z_diff'', ''score_variance'',
           ''anomaly_score''] \<and>
         nrows tbl = nat n_samples \<and>
         list_all (\<lambda>kc. length (snd kc) = nat n_samples) tbl \<and>
         ''ability'' \<notin> set (names tbl) \<and> ''coursework_raw'' \<notin> set (names tbl) \<and>
         ''exam_raw'' \<notin> set (names tbl)"
proof -
  note G = generate_table_props [OF assms]
  have "nrows tbl = nat n_samples" using G(5) by (rule rect_nrows)
  moreover have "list_all (\<lambda>kc. length (snd kc) = nat n_samples) tbl"
    using G(5) by (simp add: rect_def)
  ultimately show ?thesis
    by (simp add: G(4) output_columns_def)
qed

theorem output_shape_witness:
  "\<exists>tbl g. generate_realistic_cheating_data counter_rng flag_first 0 8 (3 / 8) = Inr (tbl, g) \<and>
     names tbl = [''cheater'', ''subject_variation'', ''historical_trend'', ''exam_time_std'',
           ''peer_comparison'', ''coursework_z'', ''exam_z'', ''z_diff'', ''score_variance'',
           ''anomaly_score''] \<and>
     nrows tbl = 8 \<and> list_all (\<lambda>kc. length (snd kc) = 8) tbl"
proof -
  have nc: "n_cheaters_of 8 (3 / 8) = 3" by (rule n_cheaters_of_examples)
  obtain tbl g where
    gen: "generate_realistic_cheating_data counter_rng flag_first 0 8 (3 / 8) = Inr (tbl, g)"
    using generate_succeeds [OF counter_rng_ok flag_first_ok, of 8 "3 / 8" 0] nc by auto
  show ?thesis
    using output_shape [OF gen] gen by simp
qed

text \<open>
  Claim C7. In a returned table, \<^verbatim>\<open>z_diff\<close> is, row by row, \<^verbatim>\<open>coursework_z\<close> minus
  \<^verbatim>\<open>exam_z\<close>, and the three columns have a cell for each of the \<open>n_samples\<close> rows. (Over
  the reals the difference is exact; a cell without a finite value gives a difference
  without one.)
\<close>

theorem z_diff_is_difference:
  assumes "generate_realistic_cheating_data R iso_forest g0 n_samples cheater_ratio = Inr (tbl, g)"
  shows "col tbl ''z_diff'' =
           map (\<lambda>(a, b). csub a b) (zip (col tbl ''coursework_z'') (col tbl ''exam_z'')) \<and>
         length (col tbl ''coursework_z'') = nat n_samples \<and>
         length (col tbl ''exam_z'') = nat n_samples \<and>
         length (col tbl ''z_diff'') = nat n_samples"
proof -
  note G = generate_table_props [OF assms]
  have "length (col tbl nm) = nat n_samples" if "nm \<in> set output_columns" for nm
    using G(5) that by (simp add: rect_col G(4))
  then show ?thesis
    using G(7) by (simp add: output_columns_def)
qed

theorem z_diff_is_difference_witness:
  "\<exists>tbl g. generate_realistic_cheating_data counter_rng flag_first 0 8 (3 / 8) = Inr (tbl, g) \<and>
     col tbl ''z_diff'' =
       map (\<lambda>(a, b). csub a b) (zip (col tbl ''coursework_z'') (col tbl ''exam_z'')) \<and>
     length (col tbl ''z_diff'') = 8"
proof -
  have nc: "n_cheaters_of 8 (3 / 8) = 3" by (rule n_cheaters_of_examples)
  obtain tbl g where
    gen: "generate_realistic_cheating_data counter_rng flag_first 0 8 (3 / 8) = Inr (tbl, g)"
    using generate_succeeds [OF counter_rng_ok flag_first_ok, of 8 "3 / 8" 0] nc by auto
  show ?thesis
    using z_diff_is_difference [OF gen] gen by simp
qed

text \<open>
  Claim C10. In a returned table the rows are grouped by label: with
  \<open>n_cheaters = int (n_samples * cheater_ratio)\<close>, the \<^verbatim>\<open>cheater\<close> column is
  \<open>n_samples - n_cheaters\<close> zeros followed by \<open>n_cheaters\<close> ones, so the rows
  \<open>0, ..., n_samples - n_cheaters - 1\<close> have \<open>cheater = 0\<close> and the last \<open>n_cheaters\<close> rows
  have \<open>cheater = 1\<close>.
\<close>

theorem rows_grouped_by_label:
  assumes "generate_realistic_cheating_data R iso_forest g0 n_samples cheater_ratio = Inr (tbl, g)"
  shows "col tbl ''cheater'' =
           replicate (nat (n_samples - n_cheaters_of n_samples cheater_ratio)) (Some 0) @
           replicate (nat (n_cheaters_of n_samples cheater_ratio)) (Some 1)"
  using generate_table_props(6) [OF assms] .

theorem rows_grouped_by_label_witness:
  "\<exists>tbl g. generate_realistic_cheating_data counter_rng flag_first 0 8 (3 / 8) = Inr (tbl, g) \<and>
     col tbl ''cheater'' = [Some 0, Some 0, Some 0, Some 0, Some 0, Some 1, Some 1, Some 1]"
proof -
  have nc: "n_cheaters_of 8 (3 / 8) = 3" by (rule n_cheaters_of_examples)
  obtain tbl g where
    gen: "generate_realistic_cheating_data counter_rng flag_first 0 8 (3 / 8) = Inr (tbl, g)"
    using generate_succeeds [OF counter_rng_ok flag_first_ok, of 8 "3 / 8" 0] nc by auto
  show ?thesis
    using rows_grouped_by_label [OF gen] gen nc by (simp add: numeral_eq_Suc)
qed

text \<open>
  Claim C4, as stated: the generator raises an invalid-input error whenever
  \<open>cheater_ratio\<close> lies outside \<open>[0, 1]\<close>. The function validates nothing (lines 40 to
  44 go straight from the seed to the two counts): for \<open>n_samples = 8\<close> it returns a
  table of 8 rows both for \<open>cheater_ratio = -1/16\<close> (the product -0.5 truncates to no
  cheater) and for \<open>cheater_ratio = 17/16\<close> (the product 8.5 truncates to 8 cheaters).
\<close>

theorem ratio_outside_unit_interval_accepted:
  "map_option nrows
     (returned (generate_realistic_cheating_data counter_rng flag_first 0 8 (- 1 / 16))) = Some 8 \<and>
   map_option nrows
     (returned (generate_realistic_cheating_data counter_rng flag_first 0 8 (17 / 16))) = Some 8"
proof -
  have nc: "n_cheaters_of 8 (- 1 / 16) = 0" "n_cheaters_of 8 (17 / 16) = 8"
    by (rule n_cheaters_of_examples)+
  obtain t1 h1 where
    g1: "generate_realistic_cheating_data counter_rng flag_first 0 8 (- 1 / 16) = Inr (t1, h1)"
    using generate_succeeds [OF counter_rng_ok flag_first_ok, of 8 "- 1 / 16" 0] nc by auto
  obtain t2 h2 where
    g2: "generate_realistic_cheating_data counter_rng flag_first 0 8 (17 / 16) = Inr (t2, h2)"
    using generate_succeeds [OF counter_rng_ok flag_first_ok, of 8 "17 / 16" 0] nc by auto
  have "nrows t1 = 8" using generate_table_props(5) [OF g1] by (simp add: rect_nrows)
  moreover have "nrows t2 = 8" using generate_table_props(5) [OF g2] by (simp add: rect_nrows)
  ultimately show ?thesis using g1 g2 by (simp add: returned_def)
qed

text \<open>
  Claim C4, amended. For an integer \<open>n_samples\<close> and a (finite) \<open>cheater_ratio\<close>, and
  with a generator and a detector that behave (\<open>rng_ok\<close>, \<open>detector_ok\<close>): the generator
  raises an error whenever \<open>n_samples <= 0\<close>, and whenever
  \<open>int (n_samples * cheater_ratio)\<close> is negative or exceeds \<open>n_samples\<close> (numpy refuses a
  negative number of rows), rather than whenever \<open>cheater_ratio\<close> lies outside \<open>[0, 1]\<close>;
  whenever \<open>n_samples\<close> is positive and \<open>int (n_samples * cheater_ratio)\<close> lies between 0
  and \<open>n_samples\<close>, in particular for every \<open>cheater_ratio\<close> in \<open>[0, 1]\<close> (and
  \<open>n_samples\<close> below \<open>2^53\<close>), no error is raised. The errors come from the libraries; the
  function itself validates nothing.
\<close>

theorem errors_without_validation:
  assumes ok: "rng_ok R" and det: "detector_ok iso_forest"
  shows "(n_samples \<le> 0 \<longrightarrow>
            (\<exists>e. generate_realistic_cheating_data R iso_forest g0 n_samples cheater_ratio = Inl e)) \<and>
         (n_cheaters_of n_samples cheater_ratio < 0 \<or>
          n_samples < n_cheaters_of n_samples cheater_ratio \<longrightarrow>
            generate_realistic_cheating_data R iso_forest g0 n_samples cheater_ratio =
              Inl NegativeDimensions) \<and>
         (0 < n_samples \<and> 0 \<le> n_cheaters_of n_samples cheater_ratio \<and>
          n_cheaters_of n_samples cheater_ratio \<le> n_samples \<longrightarrow>
            (\<exists>tbl g. generate_realistic_cheating_data R iso_forest g0 n_samples cheater_ratio =
               Inr (tbl, g))) \<and>
         (0 < n_samples \<and> n_samples < 2 ^ 53 \<and> 0 \<le> cheater_ratio \<and> cheater_ratio \<le> 1 \<longrightarrow>
            (\<exists>tbl g. generate_realistic_cheating_data R iso_forest g0 n_samples cheater_ratio =
               Inr (tbl, g)))"
proof -
  let ?nc = "n_cheaters_of n_samples cheater_ratio"
  let ?G = "generate_realistic_cheating_data R iso_forest g0 n_samples cheater_ratio"
  have neg: "?G = Inl NegativeDimensions" if "?nc < 0 \<or> n_samples < ?nc"
    using that by (rule generate_negative_dimensions)
  have pos: "\<exists>tbl g. ?G = Inr (tbl, g)" if "0 < n_samples" "0 \<le> ?nc" "?nc \<le> n_samples"
    using ok det that by (rule generate_succeeds)
  have le0: "\<exists>e. ?G = Inl e" if "n_samples \<le> 0"
  proof (cases "n_samples = 0")
    case True
    then show ?thesis using generate_no_rows [OF ok] by simp
  next
    case False
    then have "?nc < 0 \<or> n_samples < ?nc" using that by linarith
    then show ?thesis using neg by simp
  qed
  have unit: "\<exists>tbl g. ?G = Inr (tbl, g)"
    if "0 < n_samples" "n_samples < 2 ^ 53" "0 \<le> cheater_ratio" "cheater_ratio \<le> 1"
  proof -
    have "0 \<le> n_samples" using that(1) by simp
    then have "0 \<le> ?nc" "?nc \<le> n_samples"
      using that(2,3,4) by (rule n_cheaters_of_range)+
    with that(1) show ?thesis by (rule pos)
  qed
  show ?thesis using neg pos le0 unit by blast
qed

theorem errors_without_validation_witness:
  "(\<exists>e. generate_realistic_cheating_data counter_rng flag_first 0 0 (1 / 8) = Inl e) \<and>
   generate_realistic_cheating_data counter_rng flag_first 0 (- 5) (1 / 8) = Inl NegativeDimensions \<and>
   generate_realistic_cheating_data counter_rng flag_first 0 8 (3 / 2) = Inl NegativeDimensions \<and>
   (\<exists>tbl g. generate_realistic_cheating_data counter_rng flag_first 0 8 (17 / 16) = Inr (tbl, g)) \<and>
   (\<exists>tbl g. generate_realistic_cheating_data counter_rng flag_first 0 8 (3 / 8) = Inr (tbl, g))"
proof -
  note nc = n_cheaters_of_examples
  note T = errors_without_validation [OF counter_rng_ok flag_first_ok]
  have "\<exists>e. generate_realistic_cheating_data counter_rng flag_first 0 0 (1 / 8) = Inl e"
    using T [of 0 0 "1 / 8"] by simp
  moreover have
    "generate_realistic_cheating_data counter_rng flag_first 0 (- 5) (1 / 8) = Inl NegativeDimensions"
    using T [of "- 5" 0 "1 / 8"] nc(6) by simp
  moreover have
    "generate_realistic_cheating_data counter_rng flag_first 0 8 (3 / 2) = Inl NegativeDimensions"
    using T [of 8 0 "3 / 2"] nc(5) by simp
  moreover have
    "\<exists>tbl g. generate_realistic_cheating_data counter_rng flag_first 0 8 (17 / 16) = Inr (tbl, g)"
    using T [of 8 0 "17 / 16"] nc(4) by simp
  moreover have
    "\<exists>tbl g. generate_realistic_cheating_data counter_rng flag_first 0 8 (3 / 8) = Inr (tbl, g)"
    using T [of 8 0 "3 / 8"] by simp
  ultimately show ?thesis by blast
qed

text \<open>
  Claim C8. When \<open>int (n_samples * cheater_ratio)\<close> is 0 (for example
  \<open>cheater_ratio = 0\<close>) and \<open>n_samples\<close> is positive, the generator returns a table, every
  row of it has \<open>cheater = 0\<close>, and none of the cheater-only logic runs: the frame the
  detector receives is the one computed by \<open>build_features_honest\<close>, the generator from
  which the pattern loop, the sudden-improvement loop and the exam-time loop are deleted.
  (The generator and the detector are assumed to behave: \<open>rng_ok\<close>, \<open>detector_ok\<close>.)
\<close>

theorem no_cheaters_case:
  assumes ok: "rng_ok R" and det: "detector_ok iso_forest"
    and n0: "0 < n_samples" and nc: "n_cheaters_of n_samples cheater_ratio = 0"
  shows "\<exists>tbl g. generate_realistic_cheating_data R iso_forest g0 n_samples cheater_ratio = Inr (tbl, g) \<and>
           col tbl ''cheater'' = replicate (nat n_samples) (Some 0) \<and>
           count_label 1 tbl = 0 \<and>
           build_features R g0 n_samples cheater_ratio = build_features_honest R (nat n_samples)"
proof -
  have "\<exists>tbl g. generate_realistic_cheating_data R iso_forest g0 n_samples cheater_ratio = Inr (tbl, g)"
    using n0 by (intro generate_succeeds [OF ok det]) (simp_all add: nc)
  then obtain tbl g where
    gen: "generate_realistic_cheating_data R iso_forest g0 n_samples cheater_ratio = Inr (tbl, g)"
    by blast
  have c: "col tbl ''cheater'' = replicate (nat n_samples) (Some 0)"
    using generate_table_props(6) [OF gen] by (simp add: nc)
  have "count_label 1 tbl = 0" by (simp add: count_label_def c)
  moreover have "build_features R g0 n_samples cheater_ratio = build_features_honest R (nat n_samples)"
    using nc n0 by (intro build_features_no_cheaters) simp_all
  ultimately show ?thesis using gen c by simp
qed

theorem no_cheaters_case_witness:
  "\<exists>tbl g. generate_realistic_cheating_data counter_rng flag_first 0 10 0 = Inr (tbl, g) \<and>
           col tbl ''cheater'' = replicate 10 (Some 0) \<and>
           build_features counter_rng 0 10 0 = build_features_honest counter_rng 10"
proof -
  have nc: "n_cheaters_of 10 0 = 0" by (rule n_cheaters_of_ratio_zero)
  show ?thesis
    using no_cheaters_case [OF counter_rng_ok flag_first_ok, of 10 0 0] nc by auto
qed

text \<open>
  Claim C9. At \<open>cheater_ratio = 1\<close> (and a positive \<open>n_samples\<close>, below \<open>2^53\<close>, where
  the product \<open>n_samples * 1.0\<close> is \<open>n_samples\<close> itself) the generator returns a
  table in which every row is a cheater and every row has a finite \<^verbatim>\<open>peer_comparison\<close>
  value: no step fails, and no mean is taken over an empty group, since the group of a
  row contains that row. The groups are computed from the \<^verbatim>\<open>ability\<close> column alone:
  writing other labels into \<^verbatim>\<open>cheater\<close> leaves them as they are. (The generator and the
  detector are assumed to behave: \<open>rng_ok\<close>, \<open>detector_ok\<close>.)
\<close>

theorem all_cheaters_case:
  assumes ok: "rng_ok R" and det: "detector_ok iso_forest"
    and n0: "0 < n_samples" and n53: "n_samples < 2 ^ 53"
  shows "\<exists>tbl g. generate_realistic_cheating_data R iso_forest g0 n_samples 1 = Inr (tbl, g) \<and>
           col tbl ''cheater'' = replicate (nat n_samples) (Some 1) \<and>
           length (col tbl ''peer_comparison'') = nat n_samples \<and>
           None \<notin> set (col tbl ''peer_comparison'') \<and>
           ability_groups (set_col df ''cheater'' labels) = ability_groups df"
proof -
  have nc: "n_cheaters_of n_samples 1 = n_samples"
    using n0 n53 by (intro n_cheaters_of_ratio_one) simp
  have "\<exists>tbl g. generate_realistic_cheating_data R iso_forest g0 n_samples 1 = Inr (tbl, g)"
    using n0 nc by (intro generate_succeeds [OF ok det]) simp_all
  then obtain tbl g where
    gen: "generate_realistic_cheating_data R iso_forest g0 n_samples 1 = Inr (tbl, g)"
    by blast
  from gen obtain data where bf: "build_features R g0 n_samples 1 = Inr (data, g)"
    by (rule generate_cases)
  note G = generate_table_props [OF gen]
  have c: "col tbl ''cheater'' = replicate (nat n_samples) (Some 1)"
    using G(6) nc by simp
  have "''peer_comparison'' \<in> set (names tbl)" by (simp add: G(4) output_columns_def)
  with G(5) have len: "length (col tbl ''peer_comparison'') = nat n_samples" by (rule rect_col)
  have "col tbl ''peer_comparison'' = col data ''peer_comparison''"
    by (rule generate_props(4) [OF gen bf]) (simp_all add: output_columns_def)
  then have "None \<notin> set (col tbl ''peer_comparison'')"
    using build_features_peer_finite [OF bf] by simp
  then show ?thesis using gen c len by (simp add: ability_groups_labels)
qed

theorem all_cheaters_case_witness:
  "\<exists>tbl g. generate_realistic_cheating_data counter_rng flag_first 0 6 1 = Inr (tbl, g) \<and>
           col tbl ''cheater'' = replicate 6 (Some 1) \<and>
           length (col tbl ''peer_comparison'') = 6 \<and>
           None \<notin> set (col tbl ''peer_comparison'')"
  using all_cheaters_case [OF counter_rng_ok flag_first_ok, of 6 0 "[]" "[]"] by simp blast

text \<open>
  Claim C5, as stated: \<^verbatim>\<open>coursework_z\<close> is the raw value minus the column mean, divided by
  the population standard deviation of the column. Lines 153 and 154 divide by
  \<^verbatim>\<open>Series.std()\<close>, whose default is the sample standard deviation (\<^verbatim>\<open>ddof=1\<close>). In the run
  with two honest students below (generator \<open>counter_rng\<close>, detector \<open>flag_first\<close>) the raw
  coursework scores are -3.8 and -2, with mean -2.9, population standard deviation 0.9
  and sample standard deviation \<open>sqrt 1.62\<close>: the population z-scores are -1 and 1, the
  returned column holds \<open>-0.9 / sqrt 1.62\<close> and \<open>0.9 / sqrt 1.62\<close>.
\<close>

theorem z_scores_not_population:
  "map_option (\<lambda>d. col d ''coursework_raw'') (returned (build_features counter_rng 0 2 0)) =
     Some [Some (- (19 / 5)), Some (- 2)] \<and>
   map_option (\<lambda>t. col t ''coursework_z'')
     (returned (generate_realistic_cheating_data counter_rng flag_first 0 2 0)) =
     Some [Some (- (9 / (10 * sqrt (81 / 50)))), Some (9 / (10 * sqrt (81 / 50)))] \<and>
   map (\<lambda>x. cdiv (csub x (pd_mean [Some (- (19 / 5)), Some (- 2)]))
                  (np_std [Some (- (19 / 5)), Some (- 2)])) [Some (- (19 / 5)), Some (- 2)] =
     [Some (- 1), Some 1] \<and>
   [Some (- (9 / (10 * sqrt (81 / 50)))), Some (9 / (10 * sqrt (81 / 50)))] \<noteq>
     [Some (- 1), Some (1 :: real)]"
proof -
  obtain tbl g data where
    gen: "generate_realistic_cheating_data counter_rng flag_first 0 2 0 = Inr (tbl, g)"
    and bf: "build_features counter_rng 0 2 0 = Inr (data, g)"
    and cw: "col data ''coursework_raw'' = [Some (- (19 / 5)), Some (- 2)]"
    by (rule counter_rng_run)
  have "col tbl ''coursework_z'' = col data ''coursework_z''"
    by (rule generate_props(4) [OF gen bf]) (simp_all add: output_columns_def)
  then have cz: "col tbl ''coursework_z'' =
      [Some (- (9 / (10 * sqrt (81 / 50)))), Some (9 / (10 * sqrt (81 / 50)))]"
    by (simp only: build_features_props(6) [OF bf] cw z_raw_example)
  have pop: "map (\<lambda>x. cdiv (csub x (pd_mean [Some (- (19 / 5)), Some (- 2)]))
                  (np_std [Some (- (19 / 5)), Some (- 2)])) [Some (- (19 / 5)), Some (- 2)] =
     [Some (- 1), Some 1]"
    by (simp add: raw_example cdiv_def csub_def)
  have "9 / (10 * sqrt (81 / 50)) \<noteq> (1 :: real)"
    using sqrt_81_50(1,2) by (simp add: field_simps)
  then have ne: "[Some (- (9 / (10 * sqrt (81 / 50)))), Some (9 / (10 * sqrt (81 / 50)))] \<noteq>
     [Some (- 1), Some (1 :: real)]"
    by simp
  have a: "map_option (\<lambda>d. col d ''coursework_raw'') (returned (build_features counter_rng 0 2 0)) =
     Some [Some (- (19 / 5)), Some (- 2)]"
    by (simp add: returned_def bf cw)
  have b: "map_option (\<lambda>t. col t ''coursework_z'')
     (returned (generate_realistic_cheating_data counter_rng flag_first 0 2 0)) =
     Some [Some (- (9 / (10 * sqrt (81 / 50)))), Some (9 / (10 * sqrt (81 / 50)))]"
    by (simp only: returned_def gen sum.case prod.case option.map cz)
  from a b pop ne show ?thesis by (intro conjI)
qed

text \<open>
  Claim C5, amended: the \<^verbatim>\<open>coursework_z\<close> and \<^verbatim>\<open>exam_z\<close> columns are the z-scores of
  \<^verbatim>\<open>coursework_raw\<close> and \<^verbatim>\<open>exam_raw\<close> with respect to the sample standard deviation: each
  value is the raw value minus the column mean, divided by the sample standard deviation
  of the column (\<open>pd_std\<close>, with \<open>n - 1\<close> in the denominator); when that deviation exists
  and is not zero, the column has mean zero and sample standard deviation one. (\<open>data\<close>
  is the frame before the detector runs, which still has the raw columns.)
\<close>

theorem z_scores_sample_standardised:
  assumes bf: "build_features R g0 n_samples cheater_ratio = Inr (data, g)"
    and gen: "generate_realistic_cheating_data R iso_forest g0 n_samples cheater_ratio = Inr (tbl, g')"
  shows "col tbl ''coursework_z'' = z_score (col data ''coursework_raw'') \<and>
         col tbl ''exam_z'' = z_score (col data ''exam_raw'') \<and>
         (\<forall>s. pd_std (col data ''coursework_raw'') = Some s \<and> s \<noteq> 0 \<longrightarrow>
            col tbl ''coursework_z'' =
              map (\<lambda>x. cdiv (csub x (pd_mean (col data ''coursework_raw''))) (Some s))
                  (col data ''coursework_raw'') \<and>
            pd_mean (col tbl ''coursework_z'') = Some 0 \<and>
            pd_std (col tbl ''coursework_z'') = Some 1) \<and>
         (\<forall>s. pd_std (col data ''exam_raw'') = Some s \<and> s \<noteq> 0 \<longrightarrow>
            col tbl ''exam_z'' =
              map (\<lambda>x. cdiv (csub x (pd_mean (col data ''exam_raw''))) (Some s))
                  (col data ''exam_raw'') \<and>
            pd_mean (col tbl ''exam_z'') = Some 0 \<and>
            pd_std (col tbl ''exam_z'') = Some 1)"
proof -
  note B = build_features_props [OF bf]
  have t: "col tbl ''coursework_z'' = col data ''coursework_z''"
    "col tbl ''exam_z'' = col data ''exam_z''"
    by (rule generate_props(4) [OF gen bf]; simp add: output_columns_def)+
  have cz: "col tbl ''coursework_z'' = z_score (col data ''coursework_raw'')"
    unfolding t by (rule B(6))
  have ez: "col tbl ''exam_z'' = z_score (col data ''exam_raw'')"
    unfolding t by (rule B(7))
  show ?thesis
    unfolding cz ez using z_score_standardised by blast
qed

theorem z_scores_sample_standardised_witness:
  "\<exists>data g tbl g'.
     build_features counter_rng 0 2 0 = Inr (data, g) \<and>
     generate_realistic_cheating_data counter_rng flag_first 0 2 0 = Inr (tbl, g') \<and>
     pd_std (col data ''coursework_raw'') = Some (sqrt (81 / 50)) \<and>
     pd_std (col data ''exam_raw'') = Some (sqrt (81 / 50)) \<and>
     col tbl ''coursework_z'' = z_score (col data ''coursework_raw'') \<and>
     col tbl ''exam_z'' = z_score (col data ''exam_raw'') \<and>
     pd_mean (col tbl ''coursework_z'') = Some 0 \<and> pd_std (col tbl ''coursework_z'') = Some 1 \<and>
     pd_mean (col tbl ''exam_z'') = Some 0 \<and> pd_std (col tbl ''exam_z'') = Some 1"
proof -
  obtain tbl g data where
    gen: "generate_realistic_cheating_data counter_rng flag_first 0 2 0 = Inr (tbl, g)"
    and bf: "build_features counter_rng 0 2 0 = Inr (data, g)"
    and cw: "col data ''coursework_raw'' = [Some (- (19 / 5)), Some (- 2)]"
    and ex: "col data ''exam_raw'' = [Some (- (11 / 5)), Some (- (2 / 5))]"
    by (rule counter_rng_run)
  have s1: "pd_std (col data ''coursework_raw'') = Some (sqrt (81 / 50))"
    unfolding cw by (rule raw_example)
  have s2: "pd_std (col data ''exam_raw'') = Some (sqrt (81 / 50))"
    unfolding ex by (rule exam_example)
  note T = z_scores_sample_standardised [OF bf gen]
  have "pd_mean (col tbl ''coursework_z'') = Some 0 \<and> pd_std (col tbl ''coursework_z'') = Some 1"
    using T s1 sqrt_81_50(2) by blast
  moreover have "pd_mean (col tbl ''exam_z'') = Some 0 \<and> pd_std (col tbl ''exam_z'') = Some 1"
    using T s2 sqrt_81_50(2) by blast
  ultimately show ?thesis using T s1 s2 bf gen by blast
qed




end
